theory Spec2Isabelle
  imports Complex_Main
begin

section \<open>Numbers, parameter sets and samples\<close>

text \<open>
  The trajectory engine computes with JavaScript numbers. They are modelled as the real
  numbers: arithmetic is exact (the rounding of double precision is not modelled) and
  every value is finite, as the specification asks of a parameter set. On the paths the
  theorems below talk about, every divisor is non-zero, either by a guard of the code or
  by a hypothesis of the theorem; where the code can produce a non-finite number (the
  statistics of an empty collection) the value is written out with the constructors of
  \<open>number\<close>.

  A parameter set is a JavaScript object read by property name (\<open>params.duration\<close>); it
  is modelled as a function from the property name to its value, so that
  \<open>params.ramp_duration\<close> is \<open>params ''ramp_duration''\<close>. Every property a model reads is
  taken to be present. A sample count is a natural number.
\<close>

type_synonym params = "string \<Rightarrow> real"

text \<open>The object \<open>{ x, y, z, vx, vy, vz, speed, ax, ay, az, accel }\<close> that
  \<open>evaluate\<close> returns, and the sample \<open>{ t, ...state }\<close> that \<open>simulate\<close> stores.\<close>

record state =
  x :: real
  y :: real
  z :: real
  vx :: real
  vy :: real
  vz :: real
  speed :: real
  ax :: real
  ay :: real
  az :: real
  accel :: real

record sample = state +
  t :: real

definition with_t :: "real \<Rightarrow> state \<Rightarrow> sample" where
  "with_t tm st =
     \<lparr>x = x st, y = y st, z = z st, vx = vx st, vy = vy st, vz = vz st, speed = speed st,
      ax = ax st, ay = ay st, az = az st, accel = accel st, t = tm\<rparr>"

text \<open>\<open>Math.hypot\<close> of three arguments.\<close>

definition hypot :: "real \<Rightarrow> real \<Rightarrow> real \<Rightarrow> real" where
  "hypot u v w = sqrt (u\<^sup>2 + v\<^sup>2 + w\<^sup>2)"

text \<open>
  The number of samples of a trajectory is the floor of a quotient, and the floor is not
  continuous: there the rounding of the quotient decides the result. So the quotient
  \<open>plotTime / dt\<close> and the products \<open>i * dt\<close> of \<open>simulate\<close> are rounded as IEEE 754 double
  precision rounds them: \<open>to_double v\<close> is the number with 53 significant bits nearest
  to \<open>v\<close>, a tie going to the even significand. The exponent range is not modelled
  (magnitudes between \<open>2^-1022\<close> and \<open>2^1024\<close> are rounded as the machine does).
\<close>

definition round_ties_even :: "real \<Rightarrow> int" where
  "round_ties_even v =
     (let f = \<lfloor>v\<rfloor>; d = v - of_int f
      in if d < 1 / 2 then f
         else if 1 / 2 < d then f + 1
         else if even f then f else f + 1)"

definition to_double :: "real \<Rightarrow> real" where
  "to_double v =
     (if v = 0 then 0
      else let e = \<lfloor>log 2 \<bar>v\<bar>\<rfloor>; ulp = 2 powi (e - 52)
           in of_int (round_ties_even (v / ulp)) * ulp)"

text \<open>
  A raised exception is a value: \<open>TypeError\<close> is what reading a property of
  \<open>undefined\<close> raises, \<open>Error msg\<close> is \<open>throw new Error(msg)\<close>.
\<close>

datatype error = TypeError | Error string

section \<open>The Lissajous model\<close>

subsection \<open>\<open>evaluate\<close>\<close>

definition lissajous_evaluate :: "real \<Rightarrow> params \<Rightarrow> state" where
  "lissajous_evaluate time params =
     (let time_velocity =
            (if params ''ramp_duration'' > 0
             then min time (params ''ramp_duration'') / params ''ramp_duration''
             else 1);
          ramp_time = time_velocity * min time (params ''ramp_duration'') / 2;
          progress =
            (ramp_time + max 0 (time - params ''ramp_duration'')) * (2 * pi) / params ''duration'';
          d_progress = (2 * pi * time_velocity) / params ''duration'';
          dd_progress =
            (if params ''ramp_duration'' > 0 \<and> time < params ''ramp_duration''
             then (2 * pi) / (params ''ramp_duration'' * params ''duration'')
             else 0);
          x = params ''A'' * sin (params ''a'' * progress);
          y = params ''B'' * sin (params ''b'' * progress);
          z = params ''C'' * sin (params ''c'' * progress);
          vx = params ''A'' * cos (params ''a'' * progress) * params ''a'' * d_progress;
          vy = params ''B'' * cos (params ''b'' * progress) * params ''b'' * d_progress;
          vz = params ''C'' * cos (params ''c'' * progress) * params ''c'' * d_progress;
          speed = hypot vx vy vz;
          ax = params ''A'' * params ''a'' *
                 (- params ''a'' * sin (params ''a'' * progress) * d_progress * d_progress
                  + cos (params ''a'' * progress) * dd_progress);
          ay = params ''B'' * params ''b'' *
                 (- params ''b'' * sin (params ''b'' * progress) * d_progress * d_progress
                  + cos (params ''b'' * progress) * dd_progress);
          az = params ''C'' * params ''c'' *
                 (- params ''c'' * sin (params ''c'' * progress) * d_progress * d_progress
                  + cos (params ''c'' * progress) * dd_progress);
          accel = hypot ax ay az
      in \<lparr>x = x, y = y, z = z, vx = vx, vy = vy, vz = vz, speed = speed,
          ax = ax, ay = ay, az = az, accel = accel\<rparr>)"

text \<open>The default parameter values of the model (\<open>defaultParams\<close>).\<close>

definition lissajous_defaultParams :: params where
  "lissajous_defaultParams =
     (\<lambda>_. 0)(''A'' := 0.5, ''B'' := 1.0, ''C'' := 0.0, ''a'' := 2.0, ''b'' := 1.0, ''c'' := 1.0,
             ''duration'' := 10.0, ''ramp_duration'' := 3.0)"

subsection \<open>The plot horizon: \<open>gcd\<close>, \<open>calculateCycleDuration\<close> and \<open>getPlotTime\<close>\<close>

text \<open>
  The remainder operator \<open>%\<close> of JavaScript on finite numbers with a non-zero divisor:
  the quotient is truncated towards zero, so the result has the sign of the dividend.
\<close>

definition js_rem :: "real \<Rightarrow> real \<Rightarrow> real" where
  "js_rem a b = a - b * of_int (if a / b < 0 then \<lceil>a / b\<rceil> else \<lfloor>a / b\<rfloor>)"

text \<open>
  \<open>gcd(a, b, tol = 1e-9)\<close> is \<open>gcd_js\<close>: every call in the repository leaves
  \<open>tol\<close> at its default, which is the constant \<open>gcd_tol\<close> here. The \<open>while\<close> loop
  is \<open>gcd_loop\<close>; it is total because the tolerance is positive.
\<close>

definition gcd_tol :: real where
  "gcd_tol = 1 / 10 ^ 9"

text \<open>The facts about \<open>%\<close> that the termination of the loop rests on.\<close>

lemma gcd_tol_pos: "0 < gcd_tol"
  by (simp add: gcd_tol_def)

lemma js_rem_nonneg:
  assumes "0 \<le> a" "0 < b"
  shows "js_rem a b = a - b * of_int \<lfloor>a / b\<rfloor>" "0 \<le> js_rem a b" "js_rem a b < b"
proof -
  have q: "\<not> a / b < 0" using assms by (simp add: not_less)
  show e: "js_rem a b = a - b * of_int \<lfloor>a / b\<rfloor>"
    using q by (simp add: js_rem_def)
  have "b * of_int \<lfloor>a / b\<rfloor> \<le> b * (a / b)"
    using assms(2) by (intro mult_left_mono) simp_all
  then have "b * of_int \<lfloor>a / b\<rfloor> \<le> a"
    using assms(2) by simp
  then show "0 \<le> js_rem a b" using e by simp
  have "a / b < of_int \<lfloor>a / b\<rfloor> + 1" by linarith
  then have "b * (a / b) < b * (of_int \<lfloor>a / b\<rfloor> + 1)"
    using assms(2) by (intro mult_strict_left_mono) simp_all
  then have "a < b * (of_int \<lfloor>a / b\<rfloor> + 1)"
    using assms(2) by simp
  then show "js_rem a b < b" using e by (simp add: algebra_simps)
qed

lemma js_rem_neg:
  assumes "a < 0" "0 < b"
  shows "js_rem a b \<le> 0"
proof -
  have q: "a / b < 0" using assms by (simp add: divide_neg_pos)
  have "b * (a / b) \<le> b * of_int \<lceil>a / b\<rceil>"
    using assms(2) by (intro mult_left_mono) simp_all
  then have "a \<le> b * of_int \<lceil>a / b\<rceil>"
    using assms(2) by simp
  then show ?thesis using q by (simp add: js_rem_def)
qed

lemma js_rem_small:
  assumes "0 \<le> a" "a < b"
  shows "js_rem a b = a"
proof -
  have "0 \<le> a / b" "a / b < 1" using assms by simp_all
  then have "\<lfloor>a / b\<rfloor> = 0" by linarith
  then show ?thesis using js_rem_nonneg(1) [of a b] assms by simp
qed

lemma js_rem_large:
  assumes "0 < b" "b \<le> a"
  shows "js_rem a b \<le> a - b"
proof -
  have "1 \<le> a / b" using assms by simp
  then have "1 \<le> \<lfloor>a / b\<rfloor>" by linarith
  then have "(1::real) \<le> of_int \<lfloor>a / b\<rfloor>" by linarith
  then have "b * 1 \<le> b * of_int \<lfloor>a / b\<rfloor>"
    using assms(1) by (intro mult_left_mono) simp_all
  then show ?thesis using js_rem_nonneg(1) [of a b] assms by simp
qed

function gcd_loop :: "real \<Rightarrow> real \<Rightarrow> real" where
  "gcd_loop a b = (if b > gcd_tol then gcd_loop b (js_rem a b) else a)"
  by pat_completeness auto

termination
proof (relation "measure (\<lambda>(a, b).
          if b \<le> gcd_tol then 0
          else if a < 0 then 1
          else 2 + 2 * nat \<lceil>(a + b) / gcd_tol\<rceil> + (if a < b then 1 else 0))")
  show "wf (measure (\<lambda>(a, b).
          if b \<le> gcd_tol then 0
          else if a < 0 then 1
          else 2 + 2 * nat \<lceil>(a + b) / gcd_tol\<rceil> + (if a < b then 1 else 0)))"
    by simp
next
  fix a b :: real
  assume b: "gcd_tol < b"
  let ?r = "js_rem a b"
  have bpos: "0 < b" using b gcd_tol_pos by linarith
  show "((b, ?r), (a, b)) \<in> measure (\<lambda>(a, b).
          if b \<le> gcd_tol then 0
          else if a < 0 then 1
          else 2 + 2 * nat \<lceil>(a + b) / gcd_tol\<rceil> + (if a < b then 1 else 0))"
  proof (cases "?r \<le> gcd_tol")
    case True
    then show ?thesis using b by simp
  next
    case False
    then have rpos: "gcd_tol < ?r" by simp
    have apos: "0 \<le> a"
    proof (rule ccontr)
      assume "\<not> 0 \<le> a"
      then have "?r \<le> 0" using js_rem_neg [of a b] bpos by simp
      then show False using rpos gcd_tol_pos by linarith
    qed
    have rb: "?r < b" using js_rem_nonneg(3) [OF apos bpos] .
    show ?thesis
    proof (cases "a < b")
      case True
      then have "?r = a" using js_rem_small [OF apos] by simp
      then show ?thesis using b rpos True apos bpos by (simp add: add.commute)
    next
      case False
      then have le: "b + ?r \<le> a" using js_rem_large [of b a] bpos by simp
      have "b + ?r \<le> (a + b) - gcd_tol" using le b by linarith
      then have "(b + ?r) / gcd_tol \<le> ((a + b) - gcd_tol) / gcd_tol"
        using gcd_tol_pos by (intro divide_right_mono) simp_all
      also have "\<dots> = (a + b) / gcd_tol - 1"
        using gcd_tol_pos by (simp add: diff_divide_distrib)
      finally have "(b + ?r) / gcd_tol \<le> (a + b) / gcd_tol - 1" .
      then have "\<lceil>(b + ?r) / gcd_tol\<rceil> \<le> \<lceil>(a + b) / gcd_tol\<rceil> - 1"
        by linarith
      moreover have "0 < (b + ?r) / gcd_tol"
        using bpos rpos gcd_tol_pos by simp
      then have "0 < \<lceil>(b + ?r) / gcd_tol\<rceil>" by linarith
      ultimately have "nat \<lceil>(b + ?r) / gcd_tol\<rceil> < nat \<lceil>(a + b) / gcd_tol\<rceil>"
        by linarith
      then show ?thesis using b rpos rb apos bpos False by simp
    qed
  qed
qed

declare gcd_loop.simps [simp del]

definition gcd_js :: "real \<Rightarrow> real \<Rightarrow> real" where
  "gcd_js a0 b0 =
     (let a = \<bar>a0\<bar>; b = \<bar>b0\<bar>
      in if a < gcd_tol then b
         else if b < gcd_tol then a
         else gcd_loop a b)"

text \<open>\<open>gcdMultiple\<close>: \<open>nums.reduce((acc, n) => gcd(acc, n), 0)\<close>.\<close>

definition gcdMultiple :: "real list \<Rightarrow> real" where
  "gcdMultiple nums = foldl (\<lambda>acc n. gcd_js acc n) 0 nums"

definition calculateCycleDuration :: "params \<Rightarrow> real" where
  "calculateCycleDuration params =
     (let activeFreqs =
            (if params ''A'' > 0 \<and> params ''a'' > 0 then [params ''a''] else [])
          @ (if params ''B'' > 0 \<and> params ''b'' > 0 then [params ''b''] else [])
          @ (if params ''C'' > 0 \<and> params ''c'' > 0 then [params ''c''] else [])
      in if length activeFreqs = 0 then params ''duration''
         else let freqGcd = gcdMultiple activeFreqs
              in if freqGcd < 1 / 10 ^ 9 then params ''duration''
                 else let cycleMultiplier = 1 / freqGcd
                      in params ''duration'' * cycleMultiplier)"

definition lissajous_getPlotTime :: "params \<Rightarrow> real" where
  "lissajous_getPlotTime params =
     (if \<not> (params ''duration'' > 0) then 0
      else let cycleDuration = calculateCycleDuration params
           in max 0 (params ''ramp_duration'') + cycleDuration)"

subsection \<open>\<open>hasSingularity\<close>\<close>

definition lissajous_hasSingularity :: "params \<Rightarrow> bool" where
  "lissajous_hasSingularity params =
     (if params ''ramp_duration'' > 0 then False
      else let d_progress = (2 * pi) / params ''duration'';
               v0x = params ''A'' * params ''a'' * d_progress;
               v0y = params ''B'' * params ''b'' * d_progress;
               v0z = params ''C'' * params ''c'' * d_progress
           in hypot v0x v0y v0z > 1 / 10 ^ 9)"

subsection \<open>\<open>simulate\<close>\<close>

text \<open>
  Every pass of the loop over the samples builds the same array. With \<open>dt = 0\<close> the
  number of steps is infinite and the call does not return (\<open>None\<close>) unless no sample is
  asked for.
\<close>

definition lissajous_simulate :: "params \<Rightarrow> real \<Rightarrow> nat \<Rightarrow> sample list list option" where
  "lissajous_simulate params dt nSamples =
     (let plotTime = lissajous_getPlotTime params
      in if plotTime \<le> 0 then Some []
         else if dt = 0 then (if nSamples = 0 then Some [] else None)
         else let steps = nat (max 1 \<lfloor>to_double (plotTime / dt)\<rfloor>)
              in Some (map (\<lambda>n. map (\<lambda>i. let tm = min (to_double (real i * dt)) plotTime;
                                              state = lissajous_evaluate tm params
                                          in with_t tm state) [0..<Suc steps])
                         [0..<nSamples]))"

section \<open>The Langevin model\<close>

text \<open>The default parameter values of the model.\<close>

definition langevin_defaultParams :: params where
  "langevin_defaultParams =
     (\<lambda>_. 0)(''gamma'' := 0.5, ''omega'' := 1.0, ''sigma'' := 0.3, ''alpha'' := 0.1,
             ''duration'' := 20.0)"

subsection \<open>Random numbers\<close>

text \<open>
  \<open>Math.random()\<close> is modelled by the sequence \<open>random\<close> of the values it returns, in the
  order of the calls, together with the number \<open>k\<close> of values already drawn: a function
  that draws takes \<open>k\<close> and returns the new count with its result. \<open>draw_u1\<close> is the
  \<open>do ... while (u1 === 0)\<close> loop of \<open>normalRandom\<close>; it does not return when every
  further draw is 0, and its value is then \<open>None\<close>.
\<close>

partial_function (option) draw_u1 :: "(nat \<Rightarrow> real) \<Rightarrow> nat \<Rightarrow> (real \<times> nat) option" where
  "draw_u1 random k =
     (let u1 = random k
      in if u1 = 0 then draw_u1 random (Suc k) else Some (u1, Suc k))"

definition normalRandom :: "(nat \<Rightarrow> real) \<Rightarrow> nat \<Rightarrow> (real \<times> nat) option" where
  "normalRandom random k =
     (case draw_u1 random k of
        None \<Rightarrow> None
      | Some (u1, k1) \<Rightarrow>
          let u2 = random k1
          in Some (sqrt (- 2.0 * ln u1) * cos (2.0 * pi * u2), Suc k1))"

subsection \<open>\<open>getPlotTime\<close> and \<open>simulate\<close>\<close>

definition langevin_getPlotTime :: "params \<Rightarrow> real" where
  "langevin_getPlotTime params = (if params ''duration'' > 0 then params ''duration'' else 0)"

text \<open>
  The four arrays of the integration loop. \<open>update_dim\<close> is the body of the loop over the
  three dimensions, \<open>step_sample\<close> the body of the loop over the steps, \<open>simulate_one\<close>
  the body of the loop over the samples. With \<open>dt = 0\<close> the number of steps is infinite
  and the call does not return (\<open>None\<close>) unless no sample is asked for.
\<close>

record lstate =
  pos_raw :: "real list"
  vel_raw :: "real list"
  pos :: "real list"
  vel :: "real list"

definition update_dim ::
  "params \<Rightarrow> real \<Rightarrow> (nat \<Rightarrow> real) \<Rightarrow> lstate \<times> nat \<Rightarrow> nat \<Rightarrow> (lstate \<times> nat) option" where
  "update_dim params dt random sk dimn =
     (case sk of (st, k) \<Rightarrow>
        let gamma = params ''gamma''; omega = params ''omega'';
            sigma = params ''sigma''; alpha = params ''alpha'';
            omega2 = omega * omega;
            sqrt_dt = sqrt dt;
            x_prev = pos_raw st ! dimn;
            v_prev = vel_raw st ! dimn
        in case normalRandom random k of
             None \<Rightarrow> None
           | Some (nr, k') \<Rightarrow>
               let dW = sqrt_dt * nr;
                   v_next = v_prev + (- gamma * v_prev - omega2 * x_prev) * dt + sigma * dW;
                   x_next = x_prev + v_next * dt;
                   v_smooth = alpha * v_next + (1 - alpha) * (vel st ! dimn);
                   x_smooth = pos st ! dimn + v_smooth * dt
               in Some (\<lparr>pos_raw = (pos_raw st)[dimn := x_next],
                          vel_raw = (vel_raw st)[dimn := v_next],
                          pos = (pos st)[dimn := x_smooth],
                          vel = (vel st)[dimn := v_smooth]\<rparr>, k'))"

fun dims_loop ::
  "params \<Rightarrow> real \<Rightarrow> (nat \<Rightarrow> real) \<Rightarrow> nat list \<Rightarrow> lstate \<times> nat \<Rightarrow> (lstate \<times> nat) option" where
  "dims_loop params dt random [] sk = Some sk"
| "dims_loop params dt random (dimn # rest) sk =
     (case update_dim params dt random sk dimn of
        None \<Rightarrow> None
      | Some sk' \<Rightarrow> dims_loop params dt random rest sk')"

definition step_sample ::
  "params \<Rightarrow> real \<Rightarrow> real \<Rightarrow> (nat \<Rightarrow> real) \<Rightarrow> nat \<Rightarrow> lstate \<times> nat
     \<Rightarrow> (sample \<times> lstate \<times> nat) option" where
  "step_sample params dt plotTime random i sk =
     (case sk of (st, k) \<Rightarrow>
        let tm = min (to_double (real i * dt)) plotTime;
            vel_prev = vel st
        in case dims_loop params dt random [0..<3] (st, k) of
             None \<Rightarrow> None
           | Some (st', k') \<Rightarrow>
               let speed = hypot (vel st' ! 0) (vel st' ! 1) (vel st' ! 2);
                   ax = (vel st' ! 0 - vel_prev ! 0) / dt;
                   ay = (vel st' ! 1 - vel_prev ! 1) / dt;
                   az = (vel st' ! 2 - vel_prev ! 2) / dt;
                   accel = hypot ax ay az
               in Some (\<lparr>x = pos st' ! 0, y = pos st' ! 1, z = pos st' ! 2,
                          vx = vel st' ! 0, vy = vel st' ! 1, vz = vel st' ! 2,
                          speed = speed, ax = ax, ay = ay, az = az, accel = accel,
                          t = tm\<rparr>, st', k'))"

fun steps_loop ::
  "params \<Rightarrow> real \<Rightarrow> real \<Rightarrow> (nat \<Rightarrow> real) \<Rightarrow> nat list \<Rightarrow> sample list \<times> lstate \<times> nat
     \<Rightarrow> (sample list \<times> lstate \<times> nat) option" where
  "steps_loop params dt plotTime random [] acc = Some acc"
| "steps_loop params dt plotTime random (i # rest) (data, st, k) =
     (case step_sample params dt plotTime random i (st, k) of
        None \<Rightarrow> None
      | Some (point, st', k') \<Rightarrow>
          steps_loop params dt plotTime random rest (data @ [point], st', k'))"

definition simulate_one ::
  "params \<Rightarrow> real \<Rightarrow> real \<Rightarrow> nat \<Rightarrow> (nat \<Rightarrow> real) \<Rightarrow> nat \<Rightarrow> (sample list \<times> nat) option" where
  "simulate_one params dt plotTime steps random k =
     (let st0 = \<lparr>pos_raw = [0, 0, 0], vel_raw = [0, 0, 0], pos = [0, 0, 0], vel = [0, 0, 0]\<rparr>;
          data0 = [\<lparr>x = pos st0 ! 0, y = pos st0 ! 1, z = pos st0 ! 2,
                    vx = vel st0 ! 0, vy = vel st0 ! 1, vz = vel st0 ! 2,
                    speed = 0, ax = 0, ay = 0, az = 0, accel = 0, t = 0\<rparr>]
      in case steps_loop params dt plotTime random [1..<Suc steps] (data0, st0, k) of
           None \<Rightarrow> None
         | Some (data, st, k') \<Rightarrow> Some (data, k'))"

fun samples_loop ::
  "params \<Rightarrow> real \<Rightarrow> real \<Rightarrow> nat \<Rightarrow> (nat \<Rightarrow> real) \<Rightarrow> nat list \<Rightarrow> sample list list \<times> nat
     \<Rightarrow> (sample list list \<times> nat) option" where
  "samples_loop params dt plotTime steps random [] acc = Some acc"
| "samples_loop params dt plotTime steps random (n # rest) (trajectories, k) =
     (case simulate_one params dt plotTime steps random k of
        None \<Rightarrow> None
      | Some (data, k') \<Rightarrow>
          samples_loop params dt plotTime steps random rest (trajectories @ [data], k'))"

definition langevin_simulate ::
  "(nat \<Rightarrow> real) \<Rightarrow> nat \<Rightarrow> params \<Rightarrow> real \<Rightarrow> nat \<Rightarrow> (sample list list \<times> nat) option" where
  "langevin_simulate random k params dt nSamples =
     (let plotTime = langevin_getPlotTime params
      in if plotTime \<le> 0 then Some ([], k)
         else if dt = 0 then (if nSamples = 0 then Some ([], k) else None)
         else let steps = nat (max 1 \<lfloor>to_double (plotTime / dt)\<rfloor>)
              in samples_loop params dt plotTime steps random [0..<nSamples] ([], k))"

subsection \<open>\<open>evaluate\<close> and \<open>hasSingularity\<close>\<close>

definition langevin_evaluate :: "real \<Rightarrow> params \<Rightarrow> error + state" where
  "langevin_evaluate time params =
     Inl (Error ''Langevin dynamics requires simulation, not point evaluation'')"

definition langevin_hasSingularity :: "params \<Rightarrow> bool" where
  "langevin_hasSingularity params = False"

section \<open>The registry\<close>

text \<open>
  A model instance is the object with the model's identifier, name and methods; the
  property \<open>id\<close> is the field \<open>model_id\<close>. The slider configuration \<open>paramConfig\<close> and the
  command string \<open>getCommand\<close> are not modelled. \<open>simulate\<close> has one signature for both
  models: the random sequence and the draw count go in, the count comes out.
\<close>

record model =
  model_id :: string
  name :: string
  isStochastic :: bool
  defaultParams :: params
  getPlotTime :: "params \<Rightarrow> real"
  evaluate :: "real \<Rightarrow> params \<Rightarrow> error + state"
  simulate :: "(nat \<Rightarrow> real) \<Rightarrow> nat \<Rightarrow> params \<Rightarrow> real \<Rightarrow> nat \<Rightarrow> (sample list list \<times> nat) option"
  hasSingularity :: "params \<Rightarrow> bool"

definition lissajous :: model where
  "lissajous =
     \<lparr>model_id = ''lissajous'',
      name = ''Lissajous Curve'',
      isStochastic = False,
      defaultParams = lissajous_defaultParams,
      getPlotTime = lissajous_getPlotTime,
      evaluate = (\<lambda>time params. Inr (lissajous_evaluate time params)),
      simulate = (\<lambda>random k params dt nSamples.
                    map_option (\<lambda>trajectories. (trajectories, k))
                      (lissajous_simulate params dt nSamples)),
      hasSingularity = lissajous_hasSingularity\<rparr>"

definition langevin :: model where
  "langevin =
     \<lparr>model_id = ''langevin'',
      name = ''Langevin Dynamics'',
      isStochastic = True,
      defaultParams = langevin_defaultParams,
      getPlotTime = langevin_getPlotTime,
      evaluate = langevin_evaluate,
      simulate = langevin_simulate,
      hasSingularity = langevin_hasSingularity\<rparr>"

text \<open>
  \<open>trajectories\<close> is an object literal with the two own properties \<open>lissajous\<close> and
  \<open>langevin\<close>; like every object literal it inherits the properties of
  \<open>Object.prototype\<close>, whose names are listed in \<open>Object_prototype\<close>. Reading
  \<open>trajectories[id]\<close> gives the own property, else the inherited one (a function or an
  object, written \<open>Inherited id\<close>), else \<open>undefined\<close> (\<open>None\<close>). Every inherited value
  is truthy, so \<open>trajectories[id] || null\<close> is \<open>null\<close> only for \<open>undefined\<close>.
\<close>

datatype jsvalue = Model model | Inherited string | Null

definition trajectories :: "(string \<times> model) list" where
  "trajectories = [(''lissajous'', lissajous), (''langevin'', langevin)]"

definition trajectoryList :: "model list" where
  "trajectoryList = [lissajous, langevin]"

definition Object_prototype :: "string list" where
  "Object_prototype =
     [''constructor'', ''__defineGetter__'', ''__defineSetter__'', ''hasOwnProperty'',
      ''__lookupGetter__'', ''__lookupSetter__'', ''isPrototypeOf'', ''propertyIsEnumerable'',
      ''toString'', ''valueOf'', ''__proto__'', ''toLocaleString'']"

definition trajectories_get :: "string \<Rightarrow> jsvalue option" where
  "trajectories_get ident =
     (case map_of trajectories ident of
        Some m \<Rightarrow> Some (Model m)
      | None \<Rightarrow> if ident \<in> set Object_prototype then Some (Inherited ident) else None)"

definition getTrajectory :: "string \<Rightarrow> jsvalue" where
  "getTrajectory ident =
     (case trajectories_get ident of
        Some v \<Rightarrow> v
      | None \<Rightarrow> Null)"

section \<open>The aggregator \<open>computeStats\<close>\<close>

text \<open>
  The fields of a statistic record are numbers that can fail to be finite: the mean of an
  empty collection is \<open>0 / 0\<close>, and \<open>Math.min()\<close> and \<open>Math.max()\<close> of no arguments are
  \<open>Infinity\<close> and \<open>-Infinity\<close>. These values are constructors of \<open>number\<close>, with
  the addition, negation and square root of IEEE arithmetic on them.
\<close>

datatype number = Num real | NaN | Infinity | NegInfinity

fun num_add :: "number \<Rightarrow> number \<Rightarrow> number" where
  "num_add (Num a) (Num b) = Num (a + b)"
| "num_add NaN _ = NaN"
| "num_add _ NaN = NaN"
| "num_add Infinity NegInfinity = NaN"
| "num_add NegInfinity Infinity = NaN"
| "num_add Infinity _ = Infinity"
| "num_add _ Infinity = Infinity"
| "num_add NegInfinity _ = NegInfinity"
| "num_add _ NegInfinity = NegInfinity"

fun num_neg :: "number \<Rightarrow> number" where
  "num_neg (Num a) = Num (- a)"
| "num_neg NaN = NaN"
| "num_neg Infinity = NegInfinity"
| "num_neg NegInfinity = Infinity"

definition num_sub :: "number \<Rightarrow> number \<Rightarrow> number" where
  "num_sub a b = num_add a (num_neg b)"

fun num_sqrt :: "number \<Rightarrow> number" where
  "num_sqrt (Num a) = (if a < 0 then NaN else Num (sqrt a))"
| "num_sqrt NaN = NaN"
| "num_sqrt Infinity = Infinity"
| "num_sqrt NegInfinity = NaN"

text \<open>
  A statistic record is an object literal: the list of its properties, in the order of
  the source. Indexing an array beyond its length gives \<open>undefined\<close>, here \<open>None\<close>.
\<close>

type_synonym stat = "(string \<times> number) list"

definition js_index :: "'a list \<Rightarrow> nat \<Rightarrow> 'a option" where
  "js_index xs i = (if i < length xs then Some (xs ! i) else None)"

text \<open>
  The reductions of lines 67 to 77, written once for the speeds and once for the
  accelerations in the source: \<open>vs.reduce((a, b) => a + b, 0) / vs.length\<close>,
  \<open>Math.min(...vs)\<close>, \<open>Math.max(...vs)\<close> and
  \<open>vs.reduce((sum, v) => sum + (v - mean) ** 2, 0) / vs.length\<close>.
\<close>

definition js_mean :: "real list \<Rightarrow> number" where
  "js_mean vs =
     (if length vs = 0 then NaN
      else Num (foldl (\<lambda>a b. a + b) 0 vs / real (length vs)))"

definition Math_min :: "real list \<Rightarrow> number" where
  "Math_min vs = (case vs of [] \<Rightarrow> Infinity | v # rest \<Rightarrow> Num (foldl min v rest))"

definition Math_max :: "real list \<Rightarrow> number" where
  "Math_max vs = (case vs of [] \<Rightarrow> NegInfinity | v # rest \<Rightarrow> Num (foldl max v rest))"

definition js_variance :: "real list \<Rightarrow> number \<Rightarrow> number" where
  "js_variance vs mean =
     (if length vs = 0 then NaN
      else case mean of
             Num m \<Rightarrow> Num (foldl (\<lambda>sum v. sum + (v - m) ^ 2) 0 vs / real (length vs))
           | _ \<Rightarrow> NaN)"

text \<open>The record of the single-trajectory branch.\<close>

definition single_stat :: "sample \<Rightarrow> stat" where
  "single_stat point =
     [(''t'', Num (t point)),
      (''x'', Num (x point)),
      (''y'', Num (y point)),
      (''speed'', Num (speed point)),
      (''speedMin'', Num (speed point)),
      (''speedMax'', Num (speed point)),
      (''speedMean'', Num (speed point)),
      (''speedStd'', Num 0),
      (''accel'', Num (accel point)),
      (''accelMin'', Num (accel point)),
      (''accelMax'', Num (accel point)),
      (''accelMean'', Num (accel point)),
      (''accelStd'', Num 0)]"

text \<open>
  One iteration of the loop over the time index \<open>i\<close>: the inner loop collects the
  speeds and accelerations of the trajectories that have an entry at \<open>i\<close>.
\<close>

definition stat_at :: "sample list list \<Rightarrow> nat \<Rightarrow> error + stat" where
  "stat_at trajectoryData i =
     (case js_index trajectoryData 0 of
        None \<Rightarrow> Inl TypeError
      | Some first \<Rightarrow>
         (case js_index first i of
            None \<Rightarrow> Inl TypeError
          | Some point \<Rightarrow>
              let tm = t point;
                  present = List.map_filter (\<lambda>trajectory. js_index trajectory i) trajectoryData;
                  speeds = map speed present;
                  accels = map accel present;
                  speedMean = js_mean speeds;
                  speedMin = Math_min speeds;
                  speedMax = Math_max speeds;
                  speedVariance = js_variance speeds speedMean;
                  speedStd = num_sqrt speedVariance;
                  accelMean = js_mean accels;
                  accelMin = Math_min accels;
                  accelMax = Math_max accels;
                  accelVariance = js_variance accels accelMean;
                  accelStd = num_sqrt accelVariance
              in Inr [(''t'', Num tm),
                      (''speedMin'', speedMin),
                      (''speedMax'', speedMax),
                      (''speedMean'', speedMean),
                      (''speedStd'', speedStd),
                      (''speedLower'', num_sub speedMean speedStd),
                      (''speedUpper'', num_add speedMean speedStd),
                      (''accelMin'', accelMin),
                      (''accelMax'', accelMax),
                      (''accelMean'', accelMean),
                      (''accelStd'', accelStd),
                      (''accelLower'', num_sub accelMean accelStd),
                      (''accelUpper'', num_add accelMean accelStd)]))"

fun stats_loop :: "sample list list \<Rightarrow> nat list \<Rightarrow> error + stat list" where
  "stats_loop trajectoryData [] = Inr []"
| "stats_loop trajectoryData (i # rest) =
     (case stat_at trajectoryData i of
        Inl e \<Rightarrow> Inl e
      | Inr r \<Rightarrow>
         (case stats_loop trajectoryData rest of
            Inl e \<Rightarrow> Inl e
          | Inr rs \<Rightarrow> Inr (r # rs)))"

text \<open>
  \<open>computeStats(trajectoryData)\<close>. The argument is an array of arrays of samples; a
  \<open>null\<close> or \<open>undefined\<close> argument, for which the source returns \<open>[]\<close>, is not a value
  of the type.
\<close>

definition computeStats :: "sample list list \<Rightarrow> error + stat list" where
  "computeStats trajectoryData =
     (if length trajectoryData = 0 then Inr []
      else let nSamples = length trajectoryData
           in case js_index trajectoryData 0 of
                None \<Rightarrow> Inl TypeError
              | Some first \<Rightarrow>
                  let nSteps = length first
                  in if nSamples = 1 then Inr (map single_stat first)
                     else stats_loop trajectoryData [0..<nSteps])"

section \<open>Notions of the specification\<close>

text \<open>
  The plot horizon as the specification words it: 0 when \<open>duration \<le> 0\<close>, otherwise
  \<open>ramp_duration + cycleDuration\<close>, the active components being those with non-zero
  amplitude and non-zero frequency, and \<open>cycleDuration = duration / gcd\<close> when
  \<open>gcd > 1e-9\<close>, \<open>duration\<close> otherwise and when no component is active.
\<close>

definition getPlotTime_spec :: "params \<Rightarrow> real" where
  "getPlotTime_spec params =
     (if params ''duration'' \<le> 0 then 0
      else let active = map snd (filter (\<lambda>(amp, fr). amp \<noteq> 0 \<and> fr \<noteq> 0)
                          [(params ''A'', params ''a''), (params ''B'', params ''b''),
                           (params ''C'', params ''c'')]);
               g = gcdMultiple active;
               cycleDuration =
                 (if active \<noteq> [] \<and> g > 1 / 10 ^ 9 then params ''duration'' / g
                  else params ''duration'')
           in params ''ramp_duration'' + cycleDuration)"

text \<open>
  The statistics in the words of the specification: the arithmetic mean, the population
  standard deviation (the summed squared deviations divided by the number of values), and
  the statistic record made of them. \<open>present_at td i\<close> are the entries at index \<open>i\<close> of
  the trajectories that have one, and \<open>field r k\<close> reads the property \<open>k\<close> of a record.
\<close>

definition mean :: "real list \<Rightarrow> real" where
  "mean vs = sum_list vs / real (length vs)"

definition population_std :: "real list \<Rightarrow> real" where
  "population_std vs = sqrt (sum_list (map (\<lambda>v. (v - mean vs)\<^sup>2) vs) / real (length vs))"

definition stat_record :: "real \<Rightarrow> real list \<Rightarrow> real list \<Rightarrow> stat" where
  "stat_record tm speeds accels =
     [(''t'', Num tm),
      (''speedMin'', Num (Min (set speeds))),
      (''speedMax'', Num (Max (set speeds))),
      (''speedMean'', Num (mean speeds)),
      (''speedStd'', Num (population_std speeds)),
      (''speedLower'', Num (mean speeds - population_std speeds)),
      (''speedUpper'', Num (mean speeds + population_std speeds)),
      (''accelMin'', Num (Min (set accels))),
      (''accelMax'', Num (Max (set accels))),
      (''accelMean'', Num (mean accels)),
      (''accelStd'', Num (population_std accels)),
      (''accelLower'', Num (mean accels - population_std accels)),
      (''accelUpper'', Num (mean accels + population_std accels))]"

definition present_at :: "'a list list \<Rightarrow> nat \<Rightarrow> 'a list" where
  "present_at trajectoryData i =
     map (\<lambda>trajectory. trajectory ! i) (filter (\<lambda>trajectory. i < length trajectory) trajectoryData)"

definition field :: "stat \<Rightarrow> string \<Rightarrow> number option" where
  "field r k = map_of r k"

text \<open>
  \<open>uniform_draws\<close> describes a sequence that \<open>Math.random()\<close> can return: every value is
  in the interval from 0 (inclusive) to 1 (exclusive), and the values do not stay 0 forever.
  \<open>sample_times dt plotTime\<close> are the times \<open>min(i * dt, plotTime)\<close> for \<open>i\<close> from 0 to
  \<open>steps = max(1, floor(plotTime / dt))\<close>, the quotient and the products rounded to double
  precision.
\<close>

definition uniform_draws :: "(nat \<Rightarrow> real) \<Rightarrow> bool" where
  "uniform_draws random \<longleftrightarrow>
     (\<forall>k. 0 \<le> random k \<and> random k < 1) \<and> (\<forall>k. \<exists>j\<ge>k. random j \<noteq> 0)"

definition sample_times :: "real \<Rightarrow> real \<Rightarrow> real list" where
  "sample_times dt plotTime =
     map (\<lambda>i. min (to_double (real i * dt)) plotTime)
       [0..<Suc (nat (max 1 \<lfloor>to_double (plotTime / dt)\<rfloor>))]"


text \<open>
  With \<open>sigma = 0\<close> the oscillator starts at rest at the origin and stays there:
  \<open>rest_trajectory\<close> is the trajectory of samples at rest at the sample times.
\<close>

definition zero_state :: lstate where
  "zero_state = \<lparr>pos_raw = [0, 0, 0], vel_raw = [0, 0, 0], pos = [0, 0, 0], vel = [0, 0, 0]\<rparr>"

definition rest_sample :: "real \<Rightarrow> sample" where
  "rest_sample tm =
     \<lparr>x = 0, y = 0, z = 0, vx = 0, vy = 0, vz = 0, speed = 0,
      ax = 0, ay = 0, az = 0, accel = 0, t = tm\<rparr>"

definition rest_trajectory :: "real \<Rightarrow> real \<Rightarrow> sample list" where
  "rest_trajectory dt plotTime = map rest_sample (sample_times dt plotTime)"

section \<open>Concrete inputs\<close>

text \<open>
  The parameter sets, batches and random sequences at which the theorems below are
  evaluated.
\<close>

definition params_negative_ramp :: params where
  "params_negative_ramp = (\<lambda>_. 0)(''duration'' := 10, ''ramp_duration'' := - 1)"

definition params_negative_amplitude :: params where
  "params_negative_amplitude = (\<lambda>_. 0)(''A'' := - 1, ''a'' := 2, ''duration'' := 10)"

definition params_tiny_frequency :: params where
  "params_tiny_frequency = (\<lambda>_. 0)(''A'' := 1, ''a'' := 1 / 10 ^ 9, ''duration'' := 10)"

definition params_211 :: params where
  "params_211 = (\<lambda>_. 0)(''A'' := 1, ''B'' := 1, ''C'' := 1, ''a'' := 2, ''b'' := 1, ''c'' := 1,
                        ''duration'' := 10, ''ramp_duration'' := 0)"

definition params_zero :: params where
  "params_zero = (\<lambda>_. 0)"

definition params_quarters :: params where
  "params_quarters = (\<lambda>_. 0)(''A'' := 1, ''B'' := 1, ''a'' := 1 / 2, ''b'' := 3 / 4,
                             ''duration'' := 10, ''ramp_duration'' := 3)"

definition params_c5 :: params where
  "params_c5 = (\<lambda>_. 0)(''A'' := 1, ''a'' := 1, ''duration'' := 1, ''ramp_duration'' := - 1)"

definition params_noramp :: params where
  "params_noramp = (\<lambda>_. 0)(''A'' := 1, ''a'' := 1, ''duration'' := 1, ''ramp_duration'' := 0)"


definition params_sigma0 :: params where
  "params_sigma0 = langevin_defaultParams(''sigma'' := 0)"

definition mk_sample :: "real \<Rightarrow> real \<Rightarrow> real \<Rightarrow> sample" where
  "mk_sample tm sp ac =
     \<lparr>x = 0, y = 0, z = 0, vx = 0, vy = 0, vz = 0, speed = sp,
      ax = 0, ay = 0, az = 0, accel = ac, t = tm\<rparr>"

definition batch_aligned :: "sample list list" where
  "batch_aligned = [[mk_sample 0 1 0, mk_sample 1 3 0], [mk_sample 0 2 0, mk_sample 1 4 0]]"

definition batch_ragged :: "sample list list" where
  "batch_ragged = [[mk_sample 0 1 0, mk_sample 1 3 0], [mk_sample 0 2 0]]"

definition batch_single :: "sample list list" where
  "batch_single = [[mk_sample 0 1 0]]"

definition constant_draws :: "nat \<Rightarrow> real" where
  "constant_draws k = 1 / 2"

definition alternating_draws :: "nat \<Rightarrow> real" where
  "alternating_draws k = (if even k then 0 else 1 / 4)"

section \<open>Properties of \<open>evaluate\<close>\<close>

text \<open>
  Claim C1. For every parameter set with \<open>duration > 0\<close> and every time, the state
  returned by the Lissajous \<open>evaluate\<close> is the closed form of the specification: with
  \<open>time_velocity = min(t, ramp_duration) / ramp_duration\<close> when \<open>ramp_duration > 0\<close> and 1
  otherwise, \<open>ramp_time = time_velocity * min(t, ramp_duration) / 2\<close>,
  \<open>progress = (ramp_time + max(0, t - ramp_duration)) * 2\<pi> / duration\<close>,
  \<open>d_progress = 2\<pi> * time_velocity / duration\<close> and
  \<open>dd_progress = 2\<pi> / (ramp_duration * duration)\<close> while \<open>ramp_duration > 0\<close> and
  \<open>t < ramp_duration\<close>, 0 afterwards, each axis has position
  \<open>amplitude * sin(frequency * progress)\<close>, velocity
  \<open>amplitude * cos(frequency * progress) * frequency * d_progress\<close> and acceleration
  \<open>amplitude * frequency * (- frequency * sin(frequency * progress) * d_progress\<^sup>2
  + cos(frequency * progress) * dd_progress)\<close>; speed and acceleration magnitude are the
  Euclidean norms of the velocity and acceleration vectors.
\<close>

theorem lissajous_evaluate_closed_form:
  assumes "0 < params ''duration''"
  shows "let rd = params ''ramp_duration'';
             d = params ''duration'';
             tv = (if 0 < rd then min time rd / rd else 1);
             rt = tv * min time rd / 2;
             pr = (rt + max 0 (time - rd)) * (2 * pi) / d;
             dp = 2 * pi * tv / d;
             ddp = (if 0 < rd \<and> time < rd then 2 * pi / (rd * d) else 0);
             pos = (\<lambda>amp fr. amp * sin (fr * pr));
             vel = (\<lambda>amp fr. amp * cos (fr * pr) * fr * dp);
             acc = (\<lambda>amp fr. amp * fr * (- fr * sin (fr * pr) * dp\<^sup>2 + cos (fr * pr) * ddp));
             st = lissajous_evaluate time params
         in x st = pos (params ''A'') (params ''a'')
          \<and> y st = pos (params ''B'') (params ''b'')
          \<and> z st = pos (params ''C'') (params ''c'')
          \<and> vx st = vel (params ''A'') (params ''a'')
          \<and> vy st = vel (params ''B'') (params ''b'')
          \<and> vz st = vel (params ''C'') (params ''c'')
          \<and> ax st = acc (params ''A'') (params ''a'')
          \<and> ay st = acc (params ''B'') (params ''b'')
          \<and> az st = acc (params ''C'') (params ''c'')
          \<and> speed st = sqrt ((vx st)\<^sup>2 + (vy st)\<^sup>2 + (vz st)\<^sup>2)
          \<and> accel st = sqrt ((ax st)\<^sup>2 + (ay st)\<^sup>2 + (az st)\<^sup>2)"
  by (simp only: lissajous_evaluate_def Let_def hypot_def power2_eq_square state.select_convs
        mult.assoc simp_thms)

theorem lissajous_evaluate_closed_form_witness:
  "0 < lissajous_defaultParams ''duration''
   \<and> x (lissajous_evaluate 0 lissajous_defaultParams) = 0
   \<and> y (lissajous_evaluate 0 lissajous_defaultParams) = 0
   \<and> z (lissajous_evaluate 0 lissajous_defaultParams) = 0
   \<and> vx (lissajous_evaluate 0 lissajous_defaultParams) = 0
   \<and> vy (lissajous_evaluate 0 lissajous_defaultParams) = 0
   \<and> speed (lissajous_evaluate 0 lissajous_defaultParams) = 0
   \<and> ax (lissajous_evaluate 0 lissajous_defaultParams) = pi / 15
   \<and> ay (lissajous_evaluate 0 lissajous_defaultParams) = pi / 15
   \<and> az (lissajous_evaluate 0 lissajous_defaultParams) = 0"
proof -
  have vals:
    "lissajous_defaultParams ''A'' = 1 / 2" "lissajous_defaultParams ''a'' = 2"
    "lissajous_defaultParams ''B'' = 1" "lissajous_defaultParams ''b'' = 1"
    "lissajous_defaultParams ''C'' = 0" "lissajous_defaultParams ''c'' = 1"
    "lissajous_defaultParams ''duration'' = 10" "lissajous_defaultParams ''ramp_duration'' = 3"
    by (simp_all add: lissajous_defaultParams_def)
  show ?thesis
    using lissajous_evaluate_closed_form [of lissajous_defaultParams 0]
    by (simp add: vals Let_def)
qed

section \<open>Properties of the plot horizon\<close>

text \<open>On whole numbers the helper computes the greatest common divisor.\<close>

lemma gcd_loop_of_nat: "gcd_loop (of_nat m) (of_nat n) = of_nat (gcd m n)"
proof (induction m n rule: gcd_nat.induct)
  case (1 m n)
  show ?case
  proof (cases "n = 0")
    case True
    then show ?thesis using gcd_tol_pos by (simp add: gcd_loop.simps [of _ 0])
  next
    case False
    then have "1 \<le> real n" by simp
    then have gt: "gcd_tol < real n" by (simp add: gcd_tol_def)
    have "\<lfloor>real m / real n\<rfloor> = int (m div n)"
      by (simp add: floor_divide_of_nat_eq)
    then have "js_rem (real m) (real n) = real m - real n * real (m div n)"
      using js_rem_nonneg(1) [of "real m" "real n"] False by simp
    also have "\<dots> = real (m mod n)"
    proof -
      have "real m = real (n * (m div n) + m mod n)" by simp
      then show ?thesis by (simp only: of_nat_add of_nat_mult)
    qed
    finally have r: "js_rem (real m) (real n) = real (m mod n)" .
    show ?thesis
      using 1 [OF False] gt r
      by (subst gcd_loop.simps) (simp add: gcd_red_nat [symmetric])
  qed
qed

lemma gcd_js_of_nat: "gcd_js (of_nat m) (of_nat n) = of_nat (gcd m n)"
proof -
  have lt: "real k < gcd_tol \<longleftrightarrow> k = 0" for k
  proof
    assume "real k < gcd_tol"
    then have "real k < 1" by (simp add: gcd_tol_def)
    then show "k = 0" by simp
  qed (simp add: gcd_tol_pos)
  show ?thesis
    by (simp add: gcd_js_def Let_def lt gcd_loop_of_nat)
qed

lemma gcd_js_0_left: "gcd_js 0 b = \<bar>b\<bar>"
  by (simp add: gcd_js_def gcd_tol_pos)

lemma gcdMultiple_Nil: "gcdMultiple [] = 0"
  by (simp add: gcdMultiple_def)

lemma gcdMultiple_single: "gcdMultiple [v] = \<bar>v\<bar>"
  by (simp add: gcdMultiple_def gcd_js_0_left)

lemma gcdMultiple_211: "gcdMultiple [2, 1, 1] = 1"
  using gcd_js_of_nat [of 0 2] gcd_js_of_nat [of 2 1] gcd_js_of_nat [of 1 1]
  by (simp add: gcdMultiple_def)

text \<open>
  On frequencies that are whole multiples of a common unit above the tolerance the helper
  computes the greatest common divisor exactly: \<open>gcd(m * u, n * u) = gcd(m, n) * u\<close>.
\<close>

lemma gcd_loop_scaled:
  assumes "gcd_tol < u"
  shows "gcd_loop (real m * u) (real n * u) = real (gcd m n) * u"
proof (induction m n rule: gcd_nat.induct)
  case (1 m n)
  have upos: "0 < u" using assms gcd_tol_pos by linarith
  show ?case
  proof (cases "n = 0")
    case True
    then show ?thesis using gcd_tol_pos by (simp add: gcd_loop.simps [of _ 0])
  next
    case False
    then have "1 \<le> real n" by simp
    then have "u * 1 \<le> u * real n" using upos by (intro mult_left_mono) simp_all
    then have gt: "gcd_tol < real n * u" using assms by (simp add: mult.commute)
    have "real m * u / (real n * u) = real m / real n" using upos by simp
    then have "\<lfloor>real m * u / (real n * u)\<rfloor> = int (m div n)"
      by (simp add: floor_divide_of_nat_eq)
    then have "js_rem (real m * u) (real n * u) = real m * u - real n * u * real (m div n)"
      using js_rem_nonneg(1) [of "real m * u" "real n * u"] False upos by simp
    also have "\<dots> = real (m mod n) * u"
    proof -
      have "real m = real (n * (m div n) + m mod n)" by simp
      then have "real m = real n * real (m div n) + real (m mod n)"
        by (simp only: of_nat_add of_nat_mult)
      then show ?thesis by (simp add: algebra_simps)
    qed
    finally have r: "js_rem (real m * u) (real n * u) = real (m mod n) * u" .
    show ?thesis
      using 1 [OF False] gt r
      by (subst gcd_loop.simps) (simp add: gcd_red_nat [symmetric])
  qed
qed

lemma gcd_js_scaled:
  assumes "gcd_tol < u"
  shows "gcd_js (real m * u) (real n * u) = real (gcd m n) * u"
proof -
  have upos: "0 < u" using assms gcd_tol_pos by linarith
  have lt: "real k * u < gcd_tol \<longleftrightarrow> k = 0" for k
  proof
    assume a: "real k * u < gcd_tol"
    show "k = 0"
    proof (rule ccontr)
      assume "k \<noteq> 0"
      then have "1 \<le> real k" by simp
      then have "1 * u \<le> real k * u" using upos by (intro mult_right_mono) simp_all
      then show False using a assms by simp
    qed
  qed (simp add: gcd_tol_pos)
  have ab: "\<bar>real k * u\<bar> = real k * u" for k using upos by simp
  show ?thesis
    by (simp only: gcd_js_def Let_def ab lt gcd_loop_scaled [OF assms]) simp
qed

lemma foldl_gcd_js_scaled:
  assumes "gcd_tol < u"
  shows "foldl (\<lambda>acc n. gcd_js acc n) (real k * u) (map (\<lambda>n. real n * u) ns)
           = real (fold gcd ns k) * u"
proof (induction ns arbitrary: k)
  case Nil
  show ?case by simp
next
  case (Cons n ns)
  show ?case
    using Cons [of "gcd k n"] by (simp add: gcd_js_scaled [OF assms] gcd.commute)
qed

lemma gcdMultiple_scaled:
  assumes "gcd_tol < u"
  shows "gcdMultiple (map (\<lambda>n. real n * u) ns) = real (Gcd (set ns)) * u"
  using foldl_gcd_js_scaled [OF assms, of 0 ns]
  by (simp add: gcdMultiple_def Gcd_set_eq_fold)

lemma gcd_loop_bounds:
  "0 \<le> b \<Longrightarrow> gcd_tol \<le> a \<Longrightarrow> gcd_tol \<le> gcd_loop a b \<and> gcd_loop a b \<le> max a b"
proof (induction a b rule: gcd_loop.induct)
  case (1 a b)
  show ?case
  proof (cases "gcd_tol < b")
    case True
    have apos: "0 \<le> a" using "1.prems"(2) gcd_tol_pos by linarith
    have bpos: "0 < b" using True gcd_tol_pos by linarith
    have r: "0 \<le> js_rem a b" "js_rem a b < b"
      using js_rem_nonneg(2,3) [OF apos bpos] by simp_all
    have "gcd_tol \<le> gcd_loop b (js_rem a b) \<and> gcd_loop b (js_rem a b) \<le> max b (js_rem a b)"
      using "1.IH" [OF True r(1)] True by simp
    then show ?thesis
      using True r(2) by (subst (1 2) gcd_loop.simps) (simp add: le_max_iff_disj)
  next
    case False
    then show ?thesis using "1.prems" by (subst (1 2) gcd_loop.simps) simp
  qed
qed

lemma gcd_js_cases:
  assumes "0 \<le> a" "0 \<le> b"
  shows "0 \<le> gcd_js a b"
    and "gcd_js a b \<le> max a b"
    and "gcd_tol \<le> a \<or> gcd_tol \<le> b \<Longrightarrow> gcd_tol \<le> gcd_js a b"
    and "a < gcd_tol \<Longrightarrow> b < gcd_tol \<Longrightarrow> gcd_js a b < gcd_tol"
proof -
  have l: "gcd_tol \<le> gcd_loop a b \<and> gcd_loop a b \<le> max a b" if "gcd_tol \<le> a"
    using gcd_loop_bounds [OF assms(2) that] .
  show "0 \<le> gcd_js a b"
    using assms l gcd_tol_pos by (auto simp: gcd_js_def Let_def)
  show "gcd_js a b \<le> max a b"
    using assms l by (auto simp: gcd_js_def Let_def)
  show "gcd_tol \<le> a \<or> gcd_tol \<le> b \<Longrightarrow> gcd_tol \<le> gcd_js a b"
    using assms l by (auto simp: gcd_js_def Let_def)
  show "a < gcd_tol \<Longrightarrow> b < gcd_tol \<Longrightarrow> gcd_js a b < gcd_tol"
    using assms by (simp add: gcd_js_def Let_def)
qed

lemma foldl_gcd_js_bounds:
  assumes "0 \<le> acc" "\<forall>f \<in> set fs. 0 \<le> f"
  shows "0 \<le> foldl (\<lambda>acc n. gcd_js acc n) acc fs"
    and "foldl (\<lambda>acc n. gcd_js acc n) acc fs \<le> acc
           \<or> (\<exists>f \<in> set fs. foldl (\<lambda>acc n. gcd_js acc n) acc fs \<le> f)"
    and "gcd_tol \<le> acc \<or> (\<exists>f \<in> set fs. gcd_tol \<le> f)
           \<Longrightarrow> gcd_tol \<le> foldl (\<lambda>acc n. gcd_js acc n) acc fs"
    and "acc < gcd_tol \<Longrightarrow> \<forall>f \<in> set fs. f < gcd_tol
           \<Longrightarrow> foldl (\<lambda>acc n. gcd_js acc n) acc fs < gcd_tol"
  using assms
proof (induction fs arbitrary: acc)
  case Nil
  { case 1 then show ?case by simp }
  { case 2 then show ?case by simp }
  { case 3 then show ?case by simp }
  { case 4 then show ?case by simp }
next
  case (Cons f fs)
  { case 1
    then show ?case using Cons(1) [of "gcd_js acc f"] gcd_js_cases(1) [of acc f] by simp }
  { case 2
    have "foldl (\<lambda>acc n. gcd_js acc n) (gcd_js acc f) fs \<le> gcd_js acc f
           \<or> (\<exists>g \<in> set fs. foldl (\<lambda>acc n. gcd_js acc n) (gcd_js acc f) fs \<le> g)"
      using Cons(2) [of "gcd_js acc f"] gcd_js_cases(1) [of acc f] 2 by simp
    moreover have "gcd_js acc f \<le> max acc f"
      using gcd_js_cases(2) [of acc f] 2 by simp
    ultimately show ?case by (auto simp: max_def split: if_splits) }
  { case 3
    have "gcd_tol \<le> gcd_js acc f \<or> (\<exists>g \<in> set fs. gcd_tol \<le> g)"
      using 3 gcd_js_cases(3) [of acc f] by auto
    then show ?case
      using Cons(3) [of "gcd_js acc f"] gcd_js_cases(1) [of acc f] 3 by simp }
  { case 4
    then show ?case
      using Cons(4) [of "gcd_js acc f"] gcd_js_cases(1,4) [of acc f] by simp }
qed

text \<open>
  Below the tolerance the loop stops early: \<open>0.5\<close> and \<open>0.5000000001\<close> are whole
  multiples of \<open>1e-10\<close> with no larger common divisor, and the helper returns \<open>0.5\<close>.
\<close>

lemma gcdMultiple_tolerance: "gcdMultiple [1 / 2, 5000000001 / 10000000000] = 1 / 2"
proof -
  have r1: "js_rem (1 / 2) (5000000001 / 10000000000) = 1 / 2"
    by (rule js_rem_small) simp_all
  have r2: "js_rem (5000000001 / 10000000000) (1 / 2) = 1 / 10000000000"
    using js_rem_nonneg(1) [of "5000000001 / 10000000000" "1 / 2"] by simp
  have "gcd_loop (1 / 2) (5000000001 / 10000000000)
          = gcd_loop (5000000001 / 10000000000) (1 / 2)"
    by (subst gcd_loop.simps) (simp add: r1 gcd_tol_def)
  also have "\<dots> = gcd_loop (1 / 2) (1 / 10000000000)"
    by (subst gcd_loop.simps) (simp add: r2 gcd_tol_def)
  also have "\<dots> = 1 / 2"
    by (subst gcd_loop.simps) (simp add: gcd_tol_def)
  finally have l: "gcd_loop (1 / 2) (5000000001 / 10000000000) = 1 / 2" .
  have "gcd_js (1 / 2) (5000000001 / 10000000000) = 1 / 2"
    using l by (simp add: gcd_js_def gcd_tol_def)
  then show ?thesis by (simp add: gcdMultiple_def gcd_js_0_left)
qed

text \<open>
  Claim C2, as stated, fails on the code in three places: a negative \<open>ramp_duration\<close>
  is clamped to 0 before it is added; a component with a negative amplitude (or frequency)
  is not active; and a greatest common divisor of exactly \<open>1e-9\<close> still divides the
  duration.
\<close>

theorem lissajous_getPlotTime_counterexample:
  "lissajous_getPlotTime params_negative_ramp = 10
   \<and> getPlotTime_spec params_negative_ramp = 9
   \<and> lissajous_getPlotTime params_negative_amplitude = 10
   \<and> getPlotTime_spec params_negative_amplitude = 5
   \<and> lissajous_getPlotTime params_tiny_frequency = 10 ^ 10
   \<and> getPlotTime_spec params_tiny_frequency = 10"
proof -
  have 1: "lissajous_getPlotTime params_negative_ramp = 10"
    by (simp add: lissajous_getPlotTime_def calculateCycleDuration_def params_negative_ramp_def)
  have 2: "getPlotTime_spec params_negative_ramp = 9"
    by (simp add: getPlotTime_spec_def params_negative_ramp_def)
  have 3: "lissajous_getPlotTime params_negative_amplitude = 10"
    by (simp add: lissajous_getPlotTime_def calculateCycleDuration_def
        params_negative_amplitude_def)
  have 4: "getPlotTime_spec params_negative_amplitude = 5"
    by (simp add: getPlotTime_spec_def params_negative_amplitude_def gcdMultiple_single)
  have 5: "lissajous_getPlotTime params_tiny_frequency = 10 ^ 10"
    by (simp add: lissajous_getPlotTime_def calculateCycleDuration_def
        params_tiny_frequency_def gcdMultiple_single)
  have 6: "getPlotTime_spec params_tiny_frequency = 10"
    by (simp add: getPlotTime_spec_def params_tiny_frequency_def gcdMultiple_single)
  show ?thesis using 1 2 3 4 5 6 by simp
qed

lemma lissajous_getPlotTime_unfold:
  "lissajous_getPlotTime params =
     (if params ''duration'' \<le> 0 then 0
      else let active = map snd (filter (\<lambda>(amp, fr). amp > 0 \<and> fr > 0)
                          [(params ''A'', params ''a''), (params ''B'', params ''b''),
                           (params ''C'', params ''c'')]);
               g = gcdMultiple active;
               cycleDuration =
                 (if active = [] \<or> g < 1 / 10 ^ 9 then params ''duration''
                  else params ''duration'' / g)
           in max 0 (params ''ramp_duration'') + cycleDuration)"
proof -
  have act:
    "(if params ''A'' > 0 \<and> params ''a'' > 0 then [params ''a''] else [])
      @ (if params ''B'' > 0 \<and> params ''b'' > 0 then [params ''b''] else [])
      @ (if params ''C'' > 0 \<and> params ''c'' > 0 then [params ''c''] else [])
     = map snd (filter (\<lambda>(amp, fr). amp > 0 \<and> fr > 0)
                          [(params ''A'', params ''a''), (params ''B'', params ''b''),
                           (params ''C'', params ''c'')])"
    by simp
  show ?thesis
    unfolding lissajous_getPlotTime_def calculateCycleDuration_def act
    by (simp add: Let_def not_less)
qed

lemma Gcd_2_3: "Gcd (set [2, 3 :: nat]) = 1"
proof -
  have "gcd (3::nat) 2 = 1" by (simp add: gcd_nat.simps [of 3 2] gcd_nat.simps [of 2 1])
  then show ?thesis by (simp add: gcd.commute)
qed

text \<open>
  Claim C2, amended. The active components are those with amplitude \<open>> 0\<close> and frequency
  \<open>> 0\<close>. \<open>getPlotTime(params)\<close> is 0 when \<open>duration\<close> is not positive. For a positive
  \<open>duration\<close> it is \<open>max(0, ramp_duration) + duration\<close> when no component is active or every
  active frequency is below \<open>1e-9\<close>; when some active frequency is at least \<open>1e-9\<close> it is
  \<open>max(0, ramp_duration) + duration / g\<close> for a \<open>g\<close> that is at least \<open>1e-9\<close> and at most an
  active frequency; and when the active frequencies are whole multiples \<open>n\<^sub>1 * u, n\<^sub>2 * u, \<dots>\<close> of
  a unit \<open>u > 1e-9\<close>, this \<open>g\<close> is their greatest common divisor \<open>gcd(n\<^sub>1, n\<^sub>2, \<dots>) * u\<close>.
\<close>

theorem lissajous_getPlotTime_amended:
  "let active = map snd (filter (\<lambda>(amp, fr). amp > 0 \<and> fr > 0)
                   [(params ''A'', params ''a''), (params ''B'', params ''b''),
                    (params ''C'', params ''c'')]);
       ramp = max 0 (params ''ramp_duration'');
       duration = params ''duration''
   in (duration \<le> 0 \<longrightarrow> lissajous_getPlotTime params = 0)
    \<and> (0 < duration \<and> (\<forall>f \<in> set active. f < 1 / 10 ^ 9) \<longrightarrow>
         lissajous_getPlotTime params = ramp + duration)
    \<and> (0 < duration \<and> (\<exists>f \<in> set active. 1 / 10 ^ 9 \<le> f) \<longrightarrow>
         (\<exists>g. 1 / 10 ^ 9 \<le> g \<and> (\<exists>f \<in> set active. g \<le> f)
              \<and> lissajous_getPlotTime params = ramp + duration / g))
    \<and> (0 < duration \<and> 1 / 10 ^ 9 < u \<and> ns \<noteq> [] \<and> active = map (\<lambda>n. real n * u) ns \<longrightarrow>
         lissajous_getPlotTime params = ramp + duration / (real (Gcd (set ns)) * u))"
proof -
  define active where
    "active = map snd (filter (\<lambda>(amp, fr). amp > 0 \<and> fr > 0)
                   [(params ''A'', params ''a''), (params ''B'', params ''b''),
                    (params ''C'', params ''c'')])"
  define ramp where "ramp = max 0 (params ''ramp_duration'')"
  define duration where "duration = params ''duration''"
  define g where "g = gcdMultiple active"
  have tol: "gcd_tol = 1 / 10 ^ 9" by (simp add: gcd_tol_def)
  have unfold: "lissajous_getPlotTime params =
     (if duration \<le> 0 then 0
      else ramp + (if active = [] \<or> g < gcd_tol then duration else duration / g))"
    using lissajous_getPlotTime_unfold [of params]
    by (simp add: active_def ramp_def duration_def g_def Let_def tol)
  have pos: "\<forall>f \<in> set active. 0 < f"
    by (auto simp: active_def)
  then have nonneg: "\<forall>f \<in> set active. 0 \<le> f"
    by (auto intro: less_imp_le)
  have g: "g = foldl (\<lambda>acc n. gcd_js acc n) 0 active"
    by (simp add: g_def gcdMultiple_def)
  have c1: "duration \<le> 0 \<longrightarrow> lissajous_getPlotTime params = 0"
    by (simp add: unfold)
  have c2: "0 < duration \<and> (\<forall>f \<in> set active. f < gcd_tol) \<longrightarrow>
         lissajous_getPlotTime params = ramp + duration"
  proof
    assume h: "0 < duration \<and> (\<forall>f \<in> set active. f < gcd_tol)"
    have "g < gcd_tol"
      unfolding g using foldl_gcd_js_bounds(4) [of 0 active] nonneg gcd_tol_pos h by blast
    then show "lissajous_getPlotTime params = ramp + duration"
      using h by (simp add: unfold)
  qed
  have c3: "0 < duration \<and> (\<exists>f \<in> set active. gcd_tol \<le> f) \<longrightarrow>
         (\<exists>g. gcd_tol \<le> g \<and> (\<exists>f \<in> set active. g \<le> f)
              \<and> lissajous_getPlotTime params = ramp + duration / g)"
  proof
    assume h: "0 < duration \<and> (\<exists>f \<in> set active. gcd_tol \<le> f)"
    then have ne: "active \<noteq> []" by auto
    have ge: "gcd_tol \<le> g"
      unfolding g using foldl_gcd_js_bounds(3) [of 0 active] nonneg h by blast
    have "g \<le> 0 \<or> (\<exists>f \<in> set active. g \<le> f)"
      unfolding g using foldl_gcd_js_bounds(2) [of 0 active] nonneg by blast
    then have le: "\<exists>f \<in> set active. g \<le> f"
      using ge gcd_tol_pos by auto
    have "lissajous_getPlotTime params = ramp + duration / g"
      using h ne ge by (simp add: unfold not_less [symmetric])
    then show "\<exists>g. gcd_tol \<le> g \<and> (\<exists>f \<in> set active. g \<le> f)
              \<and> lissajous_getPlotTime params = ramp + duration / g"
      using ge le by blast
  qed
  have c4: "0 < duration \<and> gcd_tol < u \<and> ns \<noteq> [] \<and> active = map (\<lambda>n. real n * u) ns \<longrightarrow>
         lissajous_getPlotTime params = ramp + duration / (real (Gcd (set ns)) * u)"
  proof
    assume h: "0 < duration \<and> gcd_tol < u \<and> ns \<noteq> [] \<and> active = map (\<lambda>n. real n * u) ns"
    then have u: "gcd_tol < u" and upos: "0 < u" using gcd_tol_pos by simp_all
    have ne: "active \<noteq> []" using h by simp
    have geq: "g = real (Gcd (set ns)) * u"
      unfolding g_def using h gcdMultiple_scaled [OF u, of ns] by simp
    have "\<forall>n \<in> set ns. 0 < real n * u" using pos h by simp
    then have "\<forall>n \<in> set ns. n \<noteq> 0"
      by (metis less_irrefl mult_zero_left of_nat_0)
    moreover obtain m where "m \<in> set ns" using h by (cases ns) auto
    ultimately have "\<not> set ns \<subseteq> {0}" by blast
    then have "Gcd (set ns) \<noteq> 0" using Gcd_0_iff [of "set ns"] by blast
    then have "0 < Gcd (set ns)" by (simp only: neq0_conv)
    then have "1 \<le> real (Gcd (set ns))" by linarith
    then have "1 * u \<le> real (Gcd (set ns)) * u"
      using upos by (intro mult_right_mono) simp_all
    then have "gcd_tol \<le> g" using u geq by simp
    then show "lissajous_getPlotTime params = ramp + duration / (real (Gcd (set ns)) * u)"
      using h ne geq by (simp add: unfold not_less [symmetric])
  qed
  show ?thesis
    using c1 c2 c3 c4
    unfolding active_def ramp_def duration_def Let_def tol by blast
qed

theorem lissajous_getPlotTime_amended_witness:
  "params_zero ''duration'' \<le> 0
   \<and> lissajous_getPlotTime params_zero = 0
   \<and> 0 < params_negative_ramp ''duration''
   \<and> lissajous_getPlotTime params_negative_ramp = 10
   \<and> lissajous_getPlotTime params_211 = 10
   \<and> lissajous_getPlotTime params_quarters = 43"
proof -
  have z: "params_zero ''duration'' = 0" "params_zero ''ramp_duration'' = 0"
    by (simp_all add: params_zero_def)
  have a: "lissajous_getPlotTime params_zero = 0"
    using lissajous_getPlotTime_amended [of params_zero] by (simp add: z Let_def)
  have nr: "params_negative_ramp ''A'' = 0" "params_negative_ramp ''B'' = 0"
    "params_negative_ramp ''C'' = 0" "params_negative_ramp ''duration'' = 10"
    "params_negative_ramp ''ramp_duration'' = - 1"
    by (simp_all add: params_negative_ramp_def)
  have b: "lissajous_getPlotTime params_negative_ramp = 10"
    using lissajous_getPlotTime_amended [of params_negative_ramp] by (simp add: nr Let_def)
  have p: "params_211 ''A'' = 1" "params_211 ''B'' = 1" "params_211 ''C'' = 1"
    "params_211 ''a'' = 2" "params_211 ''b'' = 1" "params_211 ''c'' = 1"
    "params_211 ''duration'' = 10" "params_211 ''ramp_duration'' = 0"
    by (simp_all add: params_211_def)
  have c: "lissajous_getPlotTime params_211 = 10"
    using lissajous_getPlotTime_amended [where params = params_211 and u = 1 and ns = "[2, 1, 1]"]
    by (simp add: p Let_def)
  have q: "params_quarters ''A'' = 1" "params_quarters ''B'' = 1" "params_quarters ''C'' = 0"
    "params_quarters ''a'' = 1 / 2" "params_quarters ''b'' = 3 / 4" "params_quarters ''c'' = 0"
    "params_quarters ''duration'' = 10" "params_quarters ''ramp_duration'' = 3"
    by (simp_all add: params_quarters_def)
  have d: "lissajous_getPlotTime params_quarters = 43"
    using lissajous_getPlotTime_amended
      [where params = params_quarters and u = "1 / 4" and ns = "[2, 3]"] Gcd_2_3
    by (simp add: q Let_def)
  show ?thesis using z nr a b c d by simp
qed

section \<open>Properties of \<open>hasSingularity\<close>\<close>

lemma tiny_less_two_pi: "1 / 10 ^ 9 < 2 * pi"
proof -
  have "(1::real) / 10 ^ 9 < 1" by simp
  then show ?thesis using pi_ge_two by linarith
qed

lemma hypot_single: "hypot u 0 0 = \<bar>u\<bar>"
  by (simp add: hypot_def)

text \<open>
  Claim C5, as stated, fails for a negative \<open>ramp_duration\<close>: the code only returns
  early when \<open>ramp_duration > 0\<close>, so a negative ramp is treated like no ramp.
\<close>

theorem lissajous_hasSingularity_counterexample:
  "lissajous_hasSingularity params_c5 \<and> params_c5 ''ramp_duration'' \<noteq> 0"
proof -
  show ?thesis
    using tiny_less_two_pi
    by (simp add: lissajous_hasSingularity_def params_c5_def hypot_single)
qed

text \<open>
  Claim C5, amended. \<open>hasSingularity(params)\<close> is false whenever \<open>ramp_duration > 0\<close>,
  for any other parameter values; and for \<open>duration \<noteq> 0\<close> it is true if and only if
  \<open>ramp_duration \<le> 0\<close> and the Euclidean norm of
  \<open>(A*a*d_progress, B*b*d_progress, C*c*d_progress)\<close> with
  \<open>d_progress = 2\<pi> / duration\<close> exceeds \<open>1e-9\<close>.
\<close>

theorem lissajous_hasSingularity_amended:
  "(params ''ramp_duration'' > 0 \<longrightarrow> \<not> lissajous_hasSingularity params)
   \<and> (params ''duration'' \<noteq> 0 \<longrightarrow>
        lissajous_hasSingularity params =
          (params ''ramp_duration'' \<le> 0
           \<and> (let d_progress = 2 * pi / params ''duration''
              in sqrt ((params ''A'' * params ''a'' * d_progress)\<^sup>2
                     + (params ''B'' * params ''b'' * d_progress)\<^sup>2
                     + (params ''C'' * params ''c'' * d_progress)\<^sup>2) > 1 / 10 ^ 9)))"
  by (simp add: lissajous_hasSingularity_def hypot_def Let_def not_less)

theorem lissajous_hasSingularity_amended_witness:
  "lissajous_defaultParams ''ramp_duration'' > 0
   \<and> \<not> lissajous_hasSingularity lissajous_defaultParams
   \<and> params_noramp ''duration'' \<noteq> 0
   \<and> lissajous_hasSingularity params_noramp"
proof -
  have a: "lissajous_defaultParams ''ramp_duration'' > 0"
    by (simp add: lissajous_defaultParams_def)
  have b: "params_noramp ''duration'' \<noteq> 0"
    by (simp add: params_noramp_def)
  note c = tiny_less_two_pi
  have v: "params_noramp ''A'' = 1" "params_noramp ''a'' = 1" "params_noramp ''B'' = 0"
    "params_noramp ''C'' = 0" "params_noramp ''duration'' = 1"
    "params_noramp ''ramp_duration'' = 0"
    by (simp_all add: params_noramp_def)
  show ?thesis
    using a b c lissajous_hasSingularity_amended [of lissajous_defaultParams]
      lissajous_hasSingularity_amended [of params_noramp]
    by (simp add: v)
qed

section \<open>Properties of the aggregator\<close>

lemma foldl_add_sum_list: "foldl (\<lambda>a b. a + b) (a::real) vs = a + sum_list vs"
  by (induction vs arbitrary: a) simp_all

lemma foldl_sq_sum_list:
  "foldl (\<lambda>sum v. sum + (v - m) ^ 2) (a::real) vs = a + sum_list (map (\<lambda>v. (v - m)\<^sup>2) vs)"
  by (induction vs arbitrary: a) simp_all

lemma foldl_min_Min: "foldl min (v::real) vs = Min (set (v # vs))"
proof -
  have "foldl min v vs = fold min vs v"
    by (simp add: foldl_conv_fold min.commute)
  then show ?thesis by (simp only: Min.set_eq_fold)
qed

lemma foldl_max_Max: "foldl max (v::real) vs = Max (set (v # vs))"
proof -
  have "foldl max v vs = fold max vs v"
    by (simp add: foldl_conv_fold max.commute)
  then show ?thesis by (simp only: Max.set_eq_fold)
qed

lemma js_mean_nonempty: "vs \<noteq> [] \<Longrightarrow> js_mean vs = Num (mean vs)"
  by (simp add: js_mean_def mean_def foldl_add_sum_list)

lemma Math_min_nonempty: "vs \<noteq> [] \<Longrightarrow> Math_min vs = Num (Min (set vs))"
  by (cases vs) (simp_all add: Math_min_def foldl_min_Min)

lemma Math_max_nonempty: "vs \<noteq> [] \<Longrightarrow> Math_max vs = Num (Max (set vs))"
  by (cases vs) (simp_all add: Math_max_def foldl_max_Max)

lemma js_std_nonempty:
  "vs \<noteq> [] \<Longrightarrow> num_sqrt (js_variance vs (Num (mean vs))) = Num (population_std vs)"
proof -
  assume "vs \<noteq> []"
  have "0 \<le> sum_list (map (\<lambda>v. (v - mean vs)\<^sup>2) vs)"
    by (rule sum_list_nonneg) auto
  then have "\<not> sum_list (map (\<lambda>v. (v - mean vs)\<^sup>2) vs) / real (length vs) < 0"
    by (simp add: not_less)
  then show ?thesis
    using \<open>vs \<noteq> []\<close>
    by (simp add: js_variance_def population_std_def foldl_sq_sum_list)
qed

lemma map_filter_js_index:
  "List.map_filter (\<lambda>trajectory. js_index trajectory i) td = present_at td i"
  by (induction td) (simp_all add: List.map_filter_def js_index_def present_at_def)

lemma present_at_nonempty:
  assumes "td \<noteq> []" "i < length (hd td)"
  shows "present_at td i \<noteq> []"
  using assms by (cases td) (simp_all add: present_at_def)

lemma stat_at_eq:
  assumes "td \<noteq> []" "i < length (hd td)"
  shows "stat_at td i =
           Inr (stat_record (t (hd td ! i)) (map speed (present_at td i))
                  (map accel (present_at td i)))"
proof -
  have first: "js_index td 0 = Some (hd td)"
    using assms(1) by (cases td) (simp_all add: js_index_def)
  have point: "js_index (hd td) i = Some (hd td ! i)"
    using assms(2) by (simp add: js_index_def)
  have ne: "map speed (present_at td i) \<noteq> []" "map accel (present_at td i) \<noteq> []"
    using present_at_nonempty [OF assms] by simp_all
  show ?thesis
    unfolding stat_at_def first point map_filter_js_index Let_def option.case
    by (simp only: js_mean_nonempty [OF ne(1)] js_mean_nonempty [OF ne(2)]
        Math_min_nonempty [OF ne(1)] Math_min_nonempty [OF ne(2)]
        Math_max_nonempty [OF ne(1)] Math_max_nonempty [OF ne(2)]
        js_std_nonempty [OF ne(1)] js_std_nonempty [OF ne(2)]
        num_sub_def num_neg.simps num_add.simps stat_record_def)
      simp
qed

lemma stats_loop_eq:
  assumes "td \<noteq> []" "\<forall>i \<in> set idx. i < length (hd td)"
  shows "stats_loop td idx =
           Inr (map (\<lambda>i. stat_record (t (hd td ! i)) (map speed (present_at td i))
                          (map accel (present_at td i))) idx)"
  using assms(2)
proof (induction idx)
  case Nil
  show ?case by simp
next
  case (Cons i rest)
  then show ?case using stat_at_eq [OF assms(1), of i] by simp
qed

lemma computeStats_multi:
  assumes "1 < length td"
  shows "computeStats td =
           Inr (map (\<lambda>i. stat_record (t (hd td ! i)) (map speed (present_at td i))
                          (map accel (present_at td i))) [0..<length (hd td)])"
proof -
  have ne: "td \<noteq> []" using assms by auto
  have first: "js_index td 0 = Some (hd td)"
    using ne by (cases td) (simp_all add: js_index_def)
  show ?thesis
    using assms ne stats_loop_eq [OF ne, of "[0..<length (hd td)]"]
    by (simp add: computeStats_def first)
qed

lemma computeStats_single:
  "computeStats [tr] = Inr (map single_stat tr)"
  by (simp add: computeStats_def js_index_def)

lemma present_at_aligned:
  assumes "\<forall>tr \<in> set td. length tr = length (hd td)" "i < length (hd td)"
  shows "present_at td i = map (\<lambda>tr. tr ! i) td"
proof -
  have "filter (\<lambda>tr. i < length tr) td = td"
    using assms by (simp add: filter_id_conv)
  then show ?thesis by (simp add: present_at_def)
qed

lemma mean_1_2: "mean [1, 2] = 3 / 2"
  by (simp add: mean_def)

lemma population_std_1_2: "population_std [1, 2] = 1 / 2"
proof -
  have "population_std [1, 2] = sqrt ((1 / 2)\<^sup>2)"
    by (simp add: population_std_def mean_1_2 power2_eq_square)
  also have "\<dots> = 1 / 2" by (simp only: real_sqrt_abs)
  finally show ?thesis .
qed

lemma field_stat_record:
  "field (stat_record tm vs ws) ''t'' = Some (Num tm)"
  "field (stat_record tm vs ws) ''speedMin'' = Some (Num (Min (set vs)))"
  "field (stat_record tm vs ws) ''speedMax'' = Some (Num (Max (set vs)))"
  "field (stat_record tm vs ws) ''speedMean'' = Some (Num (mean vs))"
  "field (stat_record tm vs ws) ''speedStd'' = Some (Num (population_std vs))"
  "field (stat_record tm vs ws) ''speedLower'' = Some (Num (mean vs - population_std vs))"
  "field (stat_record tm vs ws) ''speedUpper'' = Some (Num (mean vs + population_std vs))"
  "field (stat_record tm vs ws) ''accelMin'' = Some (Num (Min (set ws)))"
  "field (stat_record tm vs ws) ''accelMax'' = Some (Num (Max (set ws)))"
  "field (stat_record tm vs ws) ''accelMean'' = Some (Num (mean ws))"
  "field (stat_record tm vs ws) ''accelStd'' = Some (Num (population_std ws))"
  "field (stat_record tm vs ws) ''accelLower'' = Some (Num (mean ws - population_std ws))"
  "field (stat_record tm vs ws) ''accelUpper'' = Some (Num (mean ws + population_std ws))"
  by (simp_all add: field_def stat_record_def)

lemma field_single_stat:
  "field (single_stat p) ''t'' = Some (Num (t p))"
  "field (single_stat p) ''speedMin'' = Some (Num (speed p))"
  "field (single_stat p) ''speedMax'' = Some (Num (speed p))"
  "field (single_stat p) ''speedMean'' = Some (Num (speed p))"
  "field (single_stat p) ''speedStd'' = Some (Num 0)"
  "field (single_stat p) ''speedLower'' = None"
  "field (single_stat p) ''speedUpper'' = None"
  "field (single_stat p) ''accelMin'' = Some (Num (accel p))"
  "field (single_stat p) ''accelMax'' = Some (Num (accel p))"
  "field (single_stat p) ''accelMean'' = Some (Num (accel p))"
  "field (single_stat p) ''accelStd'' = Some (Num 0)"
  "field (single_stat p) ''accelLower'' = None"
  "field (single_stat p) ''accelUpper'' = None"
  by (simp_all add: field_def single_stat_def)

text \<open>
  Claim C3. For a batch of \<open>N > 1\<close> index-aligned trajectories the aggregator returns one
  record per time index of the first trajectory, in order: the record at index \<open>i\<close> has
  the time of the first trajectory's sample \<open>i\<close> and, over the \<open>N\<close> speeds and the \<open>N\<close>
  accelerations at \<open>i\<close>, the minimum, the maximum, the arithmetic mean, the population
  standard deviation, and mean - std and mean + std as lower and upper. For two
  trajectories with speeds 1 and 2 at index 0 the record has mean 1.5, std 0.5, min 1 and
  max 2.
\<close>

theorem computeStats_aligned:
  assumes "1 < length td" and "\<forall>tr \<in> set td. length tr = length (hd td)"
  shows "\<exists>recs. computeStats td = Inr recs
           \<and> length recs = length (hd td)
           \<and> (\<forall>i < length (hd td).
                 recs ! i = stat_record (t (hd td ! i)) (map (\<lambda>tr. speed (tr ! i)) td)
                              (map (\<lambda>tr. accel (tr ! i)) td))
           \<and> (length td = 2 \<and> hd td \<noteq> [] \<and> speed (td ! 0 ! 0) = 1 \<and> speed (td ! 1 ! 0) = 2
                \<longrightarrow> field (recs ! 0) ''speedMean'' = Some (Num (3 / 2))
                  \<and> field (recs ! 0) ''speedStd'' = Some (Num (1 / 2))
                  \<and> field (recs ! 0) ''speedMin'' = Some (Num 1)
                  \<and> field (recs ! 0) ''speedMax'' = Some (Num 2))"
proof -
  let ?rec = "\<lambda>i. stat_record (t (hd td ! i)) (map (\<lambda>tr. speed (tr ! i)) td)
                              (map (\<lambda>tr. accel (tr ! i)) td)"
  let ?recs = "map ?rec [0..<length (hd td)]"
  have "computeStats td =
          Inr (map (\<lambda>i. stat_record (t (hd td ! i)) (map speed (present_at td i))
                          (map accel (present_at td i))) [0..<length (hd td)])"
    by (rule computeStats_multi [OF assms(1)])
  also have "\<dots> = Inr ?recs"
    using present_at_aligned [OF assms(2)] by (simp add: comp_def)
  finally have eq: "computeStats td = Inr ?recs" .
  have len: "length ?recs = length (hd td)" by simp
  have nth: "\<forall>i < length (hd td). ?recs ! i = ?rec i" by simp
  have chk: "field (?recs ! 0) ''speedMean'' = Some (Num (3 / 2))
           \<and> field (?recs ! 0) ''speedStd'' = Some (Num (1 / 2))
           \<and> field (?recs ! 0) ''speedMin'' = Some (Num 1)
           \<and> field (?recs ! 0) ''speedMax'' = Some (Num 2)"
    if h: "length td = 2 \<and> hd td \<noteq> [] \<and> speed (td ! 0 ! 0) = 1 \<and> speed (td ! 1 ! 0) = 2"
  proof -
    obtain tr1 tr2 where td: "td = [tr1, tr2]"
      using h by (cases td; cases "tl td") auto
    have sp: "map (\<lambda>tr. speed (tr ! 0)) td = [1, 2]"
      using h td by simp
    have pos: "0 < length (hd td)" using h by simp
    have r0: "?recs ! 0 = ?rec 0" using pos by simp
    show ?thesis
      unfolding r0 field_stat_record sp
      by (simp add: mean_1_2 population_std_1_2)
  qed
  show ?thesis
    using eq len nth chk by blast
qed

theorem computeStats_aligned_witness:
  "1 < length batch_aligned
   \<and> list_all (\<lambda>tr. length tr = length (hd batch_aligned)) batch_aligned
   \<and> (\<exists>recs. computeStats batch_aligned = Inr recs
          \<and> length recs = 2
          \<and> field (recs ! 0) ''speedMean'' = Some (Num (3 / 2))
          \<and> field (recs ! 0) ''speedStd'' = Some (Num (1 / 2))
          \<and> field (recs ! 0) ''speedMin'' = Some (Num 1)
          \<and> field (recs ! 0) ''speedMax'' = Some (Num 2)
          \<and> field (recs ! 1) ''t'' = Some (Num 1)
          \<and> field (recs ! 1) ''speedMin'' = Some (Num 3)
          \<and> field (recs ! 1) ''speedMax'' = Some (Num 4))"
proof -
  have h1: "1 < length batch_aligned"
    by (simp add: batch_aligned_def)
  have h2: "\<forall>tr \<in> set batch_aligned. length tr = length (hd batch_aligned)"
    by (simp add: batch_aligned_def)
  have v: "length batch_aligned = 2" "hd batch_aligned \<noteq> []" "length (hd batch_aligned) = 2"
    "speed (batch_aligned ! 0 ! 0) = 1" "speed (batch_aligned ! 1 ! 0) = 2"
    "map (\<lambda>tr. speed (tr ! 1)) batch_aligned = [3, 4]"
    "t (hd batch_aligned ! 1) = 1"
    by (simp_all add: batch_aligned_def mk_sample_def)
  obtain recs where r: "computeStats batch_aligned = Inr recs"
    "length recs = length (hd batch_aligned)"
    "\<forall>i < length (hd batch_aligned).
        recs ! i = stat_record (t (hd batch_aligned ! i))
                     (map (\<lambda>tr. speed (tr ! i)) batch_aligned)
                     (map (\<lambda>tr. accel (tr ! i)) batch_aligned)"
    "length batch_aligned = 2 \<and> hd batch_aligned \<noteq> [] \<and> speed (batch_aligned ! 0 ! 0) = 1
       \<and> speed (batch_aligned ! 1 ! 0) = 2
     \<longrightarrow> field (recs ! 0) ''speedMean'' = Some (Num (3 / 2))
       \<and> field (recs ! 0) ''speedStd'' = Some (Num (1 / 2))
       \<and> field (recs ! 0) ''speedMin'' = Some (Num 1)
       \<and> field (recs ! 0) ''speedMax'' = Some (Num 2)"
    using computeStats_aligned [OF h1 h2] by blast
  have r1: "recs ! 1 = stat_record 1 [3, 4] (map (\<lambda>tr. accel (tr ! 1)) batch_aligned)"
    using r(3) v by simp
  have "field (recs ! 1) ''t'' = Some (Num 1)
        \<and> field (recs ! 1) ''speedMin'' = Some (Num 3)
        \<and> field (recs ! 1) ''speedMax'' = Some (Num 4)"
    unfolding r1 field_stat_record by simp
  then show ?thesis
    using h1 h2 r(1,2,4) v by (simp add: list_all_iff)
qed

text \<open>
  Claim C10. For a batch of \<open>N > 1\<close> trajectories in which some trajectory is shorter than
  the first, the aggregator does not raise: it returns one record per index of the first
  trajectory, and at each index the statistics are those of the values actually present
  there (never none, at most \<open>N\<close>, and at some index fewer than \<open>N\<close>), the mean and the
  variance dividing by their count.
\<close>

theorem computeStats_ragged:
  assumes "1 < length td" and "\<exists>tr \<in> set td. length tr < length (hd td)"
  shows "\<exists>recs. computeStats td = Inr recs
           \<and> length recs = length (hd td)
           \<and> (\<forall>i < length (hd td).
                 present_at td i \<noteq> []
                 \<and> length (present_at td i) \<le> length td
                 \<and> recs ! i = stat_record (t (hd td ! i)) (map speed (present_at td i))
                                (map accel (present_at td i)))
           \<and> (\<exists>i < length (hd td). length (present_at td i) < length td)"
proof -
  let ?rec = "\<lambda>i. stat_record (t (hd td ! i)) (map speed (present_at td i))
                                (map accel (present_at td i))"
  let ?recs = "map ?rec [0..<length (hd td)]"
  have ne: "td \<noteq> []" using assms(1) by auto
  have eq: "computeStats td = Inr ?recs"
    by (rule computeStats_multi [OF assms(1)])
  have len: "length ?recs = length (hd td)" by simp
  have each: "\<forall>i < length (hd td).
                 present_at td i \<noteq> []
                 \<and> length (present_at td i) \<le> length td
                 \<and> ?recs ! i = ?rec i"
    using present_at_nonempty [OF ne] by (simp add: present_at_def)
  obtain tr where tr: "tr \<in> set td" "length tr < length (hd td)"
    using assms(2) by blast
  have "length (filter (\<lambda>trajectory. length tr < length trajectory) td) < length td"
    using tr(1) by (intro length_filter_less [of tr]) simp_all
  then have less: "\<exists>i < length (hd td). length (present_at td i) < length td"
    using tr(2) by (auto simp: present_at_def)
  show ?thesis
    using eq len each less by blast
qed

theorem computeStats_ragged_witness:
  "1 < length batch_ragged
   \<and> (\<exists>tr \<in> set batch_ragged. length tr < length (hd batch_ragged))
   \<and> (\<exists>recs. computeStats batch_ragged = Inr recs
          \<and> length recs = 2
          \<and> field (recs ! 1) ''speedMean'' = Some (Num 3)
          \<and> field (recs ! 1) ''speedStd'' = Some (Num 0)
          \<and> field (recs ! 1) ''speedMin'' = Some (Num 3)
          \<and> field (recs ! 1) ''speedMax'' = Some (Num 3))"
proof -
  have h1: "1 < length batch_ragged"
    by (simp add: batch_ragged_def)
  have h2: "\<exists>tr \<in> set batch_ragged. length tr < length (hd batch_ragged)"
    by (simp add: batch_ragged_def)
  have v: "length (hd batch_ragged) = 2" "map speed (present_at batch_ragged 1) = [3]"
    by (simp_all add: batch_ragged_def mk_sample_def present_at_def)
  obtain recs where r: "computeStats batch_ragged = Inr recs"
    "length recs = length (hd batch_ragged)"
    "\<forall>i < length (hd batch_ragged).
        present_at batch_ragged i \<noteq> []
        \<and> length (present_at batch_ragged i) \<le> length batch_ragged
        \<and> recs ! i = stat_record (t (hd batch_ragged ! i)) (map speed (present_at batch_ragged i))
                                (map accel (present_at batch_ragged i))"
    using computeStats_ragged [OF h1 h2] by blast
  have r1: "recs ! 1 = stat_record (t (hd batch_ragged ! 1)) [3]
                         (map accel (present_at batch_ragged 1))"
    using r(3) v by simp
  have "field (recs ! 1) ''speedMean'' = Some (Num 3)
        \<and> field (recs ! 1) ''speedStd'' = Some (Num 0)
        \<and> field (recs ! 1) ''speedMin'' = Some (Num 3)
        \<and> field (recs ! 1) ''speedMax'' = Some (Num 3)"
    unfolding r1 field_stat_record by (simp add: mean_def population_std_def)
  then show ?thesis
    using h1 h2 r(1,2) v by simp
qed

text \<open>
  Claim C6, as stated, fails for a batch of one trajectory: the records of that branch
  have no \<open>speedLower\<close>, \<open>speedUpper\<close>, \<open>accelLower\<close> or \<open>accelUpper\<close> property.
\<close>

theorem computeStats_single_counterexample:
  "computeStats batch_single = Inr [single_stat (mk_sample 0 1 0)]
   \<and> field (single_stat (mk_sample 0 1 0)) ''speedLower'' = None
   \<and> field (single_stat (mk_sample 0 1 0)) ''speedUpper'' = None
   \<and> field (single_stat (mk_sample 0 1 0)) ''accelLower'' = None
   \<and> field (single_stat (mk_sample 0 1 0)) ''accelUpper'' = None"
  by (simp add: batch_single_def computeStats_single field_single_stat)

text \<open>
  Claim C6, amended. The aggregator returns records for every non-empty batch. For
  \<open>N > 1\<close> every record has, for speed and for acceleration, the six fields min, max,
  mean, std, lower = mean - std and upper = mean + std. For \<open>N = 1\<close> there is one record
  per sample; it copies the sample's speed and acceleration into min, max and mean, has
  std 0, and has no lower and upper fields.
\<close>

theorem computeStats_fields:
  assumes "td \<noteq> []"
  shows "\<exists>recs. computeStats td = Inr recs
           \<and> (length td = 1 \<longrightarrow>
                length recs = length (hd td)
                \<and> (\<forall>i < length (hd td).
                      field (recs ! i) ''speedMin'' = Some (Num (speed (hd td ! i)))
                      \<and> field (recs ! i) ''speedMax'' = Some (Num (speed (hd td ! i)))
                      \<and> field (recs ! i) ''speedMean'' = Some (Num (speed (hd td ! i)))
                      \<and> field (recs ! i) ''speedStd'' = Some (Num 0)
                      \<and> field (recs ! i) ''speedLower'' = None
                      \<and> field (recs ! i) ''speedUpper'' = None
                      \<and> field (recs ! i) ''accelMin'' = Some (Num (accel (hd td ! i)))
                      \<and> field (recs ! i) ''accelMax'' = Some (Num (accel (hd td ! i)))
                      \<and> field (recs ! i) ''accelMean'' = Some (Num (accel (hd td ! i)))
                      \<and> field (recs ! i) ''accelStd'' = Some (Num 0)
                      \<and> field (recs ! i) ''accelLower'' = None
                      \<and> field (recs ! i) ''accelUpper'' = None))
           \<and> (1 < length td \<longrightarrow>
                (\<forall>r \<in> set recs. \<forall>q \<in> {''speed'', ''accel''}.
                   \<exists>mn mx m s.
                      field r (q @ ''Min'') = Some (Num mn)
                      \<and> field r (q @ ''Max'') = Some (Num mx)
                      \<and> field r (q @ ''Mean'') = Some (Num m)
                      \<and> field r (q @ ''Std'') = Some (Num s)
                      \<and> field r (q @ ''Lower'') = Some (Num (m - s))
                      \<and> field r (q @ ''Upper'') = Some (Num (m + s))))"
proof (cases "length td = 1")
  case True
  then obtain tr where td: "td = [tr]"
    by (cases td) auto
  have "computeStats td = Inr (map single_stat tr)"
    unfolding td by (rule computeStats_single)
  then show ?thesis
    using True td by (simp add: field_single_stat)
next
  case False
  then have multi: "1 < length td" using assms by (cases td) auto
  let ?rec = "\<lambda>i. stat_record (t (hd td ! i)) (map speed (present_at td i))
                                (map accel (present_at td i))"
  have eq: "computeStats td = Inr (map ?rec [0..<length (hd td)])"
    by (rule computeStats_multi [OF multi])
  have "\<exists>mn mx m s.
          field r (q @ ''Min'') = Some (Num mn)
          \<and> field r (q @ ''Max'') = Some (Num mx)
          \<and> field r (q @ ''Mean'') = Some (Num m)
          \<and> field r (q @ ''Std'') = Some (Num s)
          \<and> field r (q @ ''Lower'') = Some (Num (m - s))
          \<and> field r (q @ ''Upper'') = Some (Num (m + s))"
    if "r \<in> set (map ?rec [0..<length (hd td)])" "q \<in> {''speed'', ''accel''}" for r q
  proof -
    from that(1) have "r \<in> ?rec ` set [0..<length (hd td)]"
      by (simp only: set_map)
    then obtain i where r: "r = ?rec i" by blast
    from that(2) show ?thesis
      unfolding r by (auto simp: field_stat_record)
  qed
  then show ?thesis
    using eq False by blast
qed

theorem computeStats_fields_witness:
  "batch_single \<noteq> [] \<and> batch_aligned \<noteq> []
   \<and> (\<exists>recs. computeStats batch_single = Inr recs
          \<and> field (recs ! 0) ''speedMean'' = Some (Num 1)
          \<and> field (recs ! 0) ''speedStd'' = Some (Num 0)
          \<and> field (recs ! 0) ''speedLower'' = None)
   \<and> (\<exists>recs. computeStats batch_aligned = Inr recs
          \<and> (\<forall>r \<in> set recs. \<exists>m s. field r ''speedMean'' = Some (Num m)
                 \<and> field r ''speedStd'' = Some (Num s)
                 \<and> field r ''speedLower'' = Some (Num (m - s))))"
proof -
  have h1: "batch_single \<noteq> []" by (simp add: batch_single_def)
  have h2: "batch_aligned \<noteq> []" by (simp add: batch_aligned_def)
  have v: "length batch_single = 1" "length (hd batch_single) = 1"
    "speed (hd batch_single ! 0) = 1" "1 < length batch_aligned"
    by (simp_all add: batch_single_def batch_aligned_def mk_sample_def)
  have a: "\<exists>recs. computeStats batch_single = Inr recs
          \<and> field (recs ! 0) ''speedMean'' = Some (Num 1)
          \<and> field (recs ! 0) ''speedStd'' = Some (Num 0)
          \<and> field (recs ! 0) ''speedLower'' = None"
    using computeStats_fields [OF h1] v by auto
  have b: "\<exists>recs. computeStats batch_aligned = Inr recs
          \<and> (\<forall>r \<in> set recs. \<exists>m s. field r ''speedMean'' = Some (Num m)
                 \<and> field r ''speedStd'' = Some (Num s)
                 \<and> field r ''speedLower'' = Some (Num (m - s)))"
  proof -
    obtain recs where r: "computeStats batch_aligned = Inr recs"
      "\<forall>r \<in> set recs. \<forall>q \<in> {''speed'', ''accel''}.
                   \<exists>mn mx m s.
                      field r (q @ ''Min'') = Some (Num mn)
                      \<and> field r (q @ ''Max'') = Some (Num mx)
                      \<and> field r (q @ ''Mean'') = Some (Num m)
                      \<and> field r (q @ ''Std'') = Some (Num s)
                      \<and> field r (q @ ''Lower'') = Some (Num (m - s))
                      \<and> field r (q @ ''Upper'') = Some (Num (m + s))"
      using computeStats_fields [OF h2] v(4) by blast
    have "\<exists>m s. field r ''speedMean'' = Some (Num m)
                 \<and> field r ''speedStd'' = Some (Num s)
                 \<and> field r ''speedLower'' = Some (Num (m - s))" if "r \<in> set recs" for r
      using r(2) [rule_format, OF that, of "''speed''"] by auto
    then show ?thesis using r(1) by blast
  qed
  show ?thesis using h1 h2 a b by blast
qed

section \<open>Properties of \<open>simulate\<close>\<close>

text \<open>Rounding to double precision is monotonic on non-negative numbers and exact on whole
  numbers below \<open>2^53\<close>.\<close>

lemma round_ties_even_of_int: "round_ties_even (of_int k) = k"
  by (simp add: round_ties_even_def)



lemma two_powr_of_int: "2 powr real_of_int n = (2::real) powi n"
  by (rule powr_real_of_int') simp_all


lemma binade_unique:
  assumes "2 powi e \<le> v" "v < 2 powi (e + 1)"
  shows "\<lfloor>log 2 v\<rfloor> = e"
proof -
  have pos: "0 < v" using assms(1) zero_less_power_int [of "2::real" e] by linarith
  have "2 powr of_int e \<le> v" "v < 2 powr (of_int e + 1)"
    using assms two_powr_of_int [of e] two_powr_of_int [of "e + 1"] by simp_all
  then show ?thesis
    using floor_log_eq_powr_iff [of v 2 e] pos by simp
qed

lemma to_double_zero: "to_double 0 = 0"
  by (simp add: to_double_def)

lemma to_double_pos_eq:
  assumes "0 < v"
  shows "to_double v = of_int (round_ties_even (v / 2 powi (\<lfloor>log 2 v\<rfloor> - 52)))
                         * 2 powi (\<lfloor>log 2 v\<rfloor> - 52)"
  using assms by (simp add: to_double_def Let_def)




lemma to_double_of_nat:
  assumes "n < 2 ^ 53"
  shows "to_double (real n) = real n"
proof (cases "n = 0")
  case True
  then show ?thesis by (simp add: to_double_zero)
next
  case False
  then have pos: "0 < real n" by simp
  let ?e = "\<lfloor>log 2 (real n)\<rfloor>"
  have "1 \<le> real n" using False by simp
  then have "0 \<le> log 2 (real n)" by simp
  then have e0: "0 \<le> ?e" by simp
  have "real n < 2 ^ 53" using assms by (metis of_nat_less_iff of_nat_numeral of_nat_power)
  then have "log 2 (real n) < log 2 (2 ^ 53)"
    using pos by (simp only: log_less_cancel_iff)
  moreover have "log 2 (2 ^ 53) = 53"
    using log_nat_power [of 2 2 53] by simp
  ultimately have e52: "?e \<le> 52" by linarith
  define k where "k = nat (52 - ?e)"
  have k: "52 - ?e = int k" using e52 by (simp add: k_def)
  have ek: "?e - 52 = - int k" using k by simp
  have u: "(2::real) powi (?e - 52) = inverse (2 ^ k)"
    unfolding ek by (simp add: power_int_minus)
  have q: "real n / inverse (2 ^ k) = of_int (int n * 2 ^ k)"
    by (simp add: field_simps)
  have "to_double (real n)
          = real_of_int (round_ties_even (of_int (int n * 2 ^ k))) * inverse (2 ^ k)"
    unfolding to_double_pos_eq [OF pos] u q ..
  also have "\<dots> = real n"
    by (simp only: round_ties_even_of_int) simp
  finally show ?thesis .
qed


lemma to_double_20_3: "to_double (20 / 3) = 7505999378950827 / 1125899906842624"
proof -
  have e: "\<lfloor>log 2 (20 / 3 :: real)\<rfloor> = 2"
    by (rule binade_unique) simp_all
  have u: "(2::real) powi (2 - 52) = 1 / 1125899906842624"
    by (simp add: power_int_minus)
  show ?thesis
    by (simp add: to_double_pos_eq e u round_ties_even_def)
qed


lemma floor_to_double_20_3: "\<lfloor>to_double (20 / 3)\<rfloor> = 6"
  by (simp add: to_double_20_3)

lemma draw_u1_nonzero: "random k \<noteq> 0 \<Longrightarrow> draw_u1 random k = Some (random k, Suc k)"
  by (subst draw_u1.simps) simp

lemma draw_u1_zero: "random k = 0 \<Longrightarrow> draw_u1 random k = draw_u1 random (Suc k)"
  by (subst draw_u1.simps) simp

lemma draw_u1_reaches:
  "random j \<noteq> 0 \<Longrightarrow> k \<le> j \<Longrightarrow> \<exists>u k'. draw_u1 random k = Some (u, k')"
proof (induction "j - k" arbitrary: k)
  case 0
  then have "k = j" by simp
  then show ?case using 0 draw_u1_nonzero by blast
next
  case (Suc d)
  show ?case
  proof (cases "random k = 0")
    case True
    have "d = j - Suc k" "Suc k \<le> j" using Suc.hyps(2) by simp_all
    then obtain u k' where "draw_u1 random (Suc k) = Some (u, k')"
      using Suc.hyps(1) [of "Suc k"] Suc.prems(1) by blast
    then show ?thesis using draw_u1_zero [of random k] True by simp
  next
    case False
    then show ?thesis using draw_u1_nonzero by blast
  qed
qed

lemma draw_u1_total:
  assumes "uniform_draws random"
  shows "\<exists>u k'. draw_u1 random k = Some (u, k')"
proof -
  obtain j where "k \<le> j" "random j \<noteq> 0"
    using assms unfolding uniform_draws_def by blast
  then show ?thesis using draw_u1_reaches by blast
qed

lemma normalRandom_total:
  assumes "uniform_draws random"
  shows "\<exists>nr k'. normalRandom random k = Some (nr, k')"
proof -
  obtain u k1 where "draw_u1 random k = Some (u, k1)"
    using draw_u1_total [OF assms] by blast
  then show ?thesis by (simp add: normalRandom_def Let_def)
qed









lemma uniform_draws_constant: "uniform_draws constant_draws"
  unfolding uniform_draws_def constant_draws_def by auto

lemma to_double_small:
  "to_double 3 = 3" "to_double 6 = 6" "to_double 9 = 9" "to_double 12 = 12"
  "to_double 15 = 15" "to_double 18 = 18"
  using to_double_of_nat [of 3] to_double_of_nat [of 6] to_double_of_nat [of 9]
    to_double_of_nat [of 12] to_double_of_nat [of 15] to_double_of_nat [of 18]
  by simp_all

lemma sample_times_length:
  "length (sample_times dt H) = Suc (nat (max 1 \<lfloor>to_double (H / dt)\<rfloor>))"
  by (simp add: sample_times_def del: upt_Suc)

lemma sample_times_last:
  "last (sample_times dt H)
     = min (to_double (real (nat (max 1 \<lfloor>to_double (H / dt)\<rfloor>)) * dt)) H"
  by (simp add: sample_times_def last_map del: upt_Suc)







lemma sample_times_3_20: "sample_times 3 20 = [0, 3, 6, 9, 12, 15, 18]"
proof -
  have n: "nat (max 1 \<lfloor>to_double (20 / 3)\<rfloor>) = 6"
    by (simp add: floor_to_double_20_3)
  show ?thesis
    unfolding sample_times_def n
    by (simp add: upt_rec to_double_zero to_double_small)
qed

text \<open>
  The rounding decides the number of samples. The literals \<open>0.1\<close> and \<open>0.3\<close> are the
  doubles \<open>to_double (1 / 10)\<close> and \<open>to_double (3 / 10)\<close>. With a horizon of \<open>0.3\<close> and
  \<open>dt = 0.1\<close> the rounded quotient is below 3: there are two steps and three samples, the last
  at \<open>0.2\<close>. With a horizon of 1 and \<open>dt = 0.1\<close> the rounded quotient is 10 and the rounded
  product \<open>10 * 0.1\<close> is 1: there are eleven samples, the last at the horizon.
\<close>

lemma to_double_1_10: "to_double (1 / 10) = 3602879701896397 / 36028797018963968"
proof -
  have e: "\<lfloor>log 2 (1 / 10 :: real)\<rfloor> = - 4"
    by (rule binade_unique) (simp_all add: power_int_minus)
  have u: "(2::real) powi (- 4 - 52) = 1 / 72057594037927936"
    by (simp add: power_int_minus)
  show ?thesis
    by (simp add: to_double_pos_eq e u round_ties_even_def)
qed

lemma to_double_3_10: "to_double (3 / 10) = 5404319552844595 / 18014398509481984"
proof -
  have e: "\<lfloor>log 2 (3 / 10 :: real)\<rfloor> = - 2"
    by (rule binade_unique) (simp_all add: power_int_minus)
  have u: "(2::real) powi (- 2 - 52) = 1 / 18014398509481984"
    by (simp add: power_int_minus)
  show ?thesis
    by (simp add: to_double_pos_eq e u round_ties_even_def)
qed

lemma to_double_quotient_3_10:
  "to_double (to_double (3 / 10) / to_double (1 / 10)) = 6755399441055743 / 2251799813685248"
proof -
  have q: "to_double (3 / 10) / to_double (1 / 10) = (10808639105689190 / 3602879701896397 :: real)"
    by (simp add: to_double_1_10 to_double_3_10)
  have e: "\<lfloor>log 2 (10808639105689190 / 3602879701896397 :: real)\<rfloor> = 1"
    by (rule binade_unique) simp_all
  have u: "(2::real) powi (1 - 52) = 1 / 2251799813685248"
    by (simp add: power_int_minus)
  show ?thesis
    unfolding q by (simp add: to_double_pos_eq e u round_ties_even_def)
qed

lemma floor_quotient_3_10: "\<lfloor>to_double (to_double (3 / 10) / to_double (1 / 10))\<rfloor> = 2"
  by (simp add: to_double_quotient_3_10)

lemma to_double_quotient_1:
  "to_double (1 / to_double (1 / 10)) = 10"
proof -
  have q: "1 / to_double (1 / 10) = (36028797018963968 / 3602879701896397 :: real)"
    by (simp add: to_double_1_10)
  have e: "\<lfloor>log 2 (36028797018963968 / 3602879701896397 :: real)\<rfloor> = 3"
    by (rule binade_unique) simp_all
  have u: "(2::real) powi (3 - 52) = 1 / 562949953421312"
    by (simp add: power_int_minus)
  show ?thesis
    unfolding q by (simp add: to_double_pos_eq e u round_ties_even_def)
qed

lemma to_double_2_tenths: "to_double (2 * to_double (1 / 10)) = 3602879701896397 / 18014398509481984"
proof -
  have q: "2 * to_double (1 / 10) = (3602879701896397 / 18014398509481984 :: real)"
    by (simp add: to_double_1_10)
  have e: "\<lfloor>log 2 (3602879701896397 / 18014398509481984 :: real)\<rfloor> = - 3"
    by (rule binade_unique) (simp_all add: power_int_minus)
  have u: "(2::real) powi (- 3 - 52) = 1 / 36028797018963968"
    by (simp add: power_int_minus)
  show ?thesis
    unfolding q by (simp add: to_double_pos_eq e u round_ties_even_def)
qed

lemma to_double_1_tenth: "to_double (to_double (1 / 10)) = 3602879701896397 / 36028797018963968"
proof -
  have e: "\<lfloor>log 2 (3602879701896397 / 36028797018963968 :: real)\<rfloor> = - 4"
    by (rule binade_unique) (simp_all add: power_int_minus)
  have u: "(2::real) powi (- 4 - 52) = 1 / 72057594037927936"
    by (simp add: power_int_minus)
  show ?thesis
    unfolding to_double_1_10 by (simp add: to_double_pos_eq e u round_ties_even_def)
qed

lemma to_double_10_tenths: "to_double (10 * to_double (1 / 10)) = 1"
proof -
  have q: "10 * to_double (1 / 10) = (18014398509481985 / 18014398509481984 :: real)"
    by (simp add: to_double_1_10)
  have e: "\<lfloor>log 2 (18014398509481985 / 18014398509481984 :: real)\<rfloor> = 0"
    by (rule binade_unique) simp_all
  have u: "(2::real) powi (0 - 52) = 1 / 4503599627370496"
    by (simp add: power_int_minus)
  show ?thesis
    unfolding q by (simp add: to_double_pos_eq e u round_ties_even_def)
qed

lemma sample_times_tenths:
  "sample_times (to_double (1 / 10)) (to_double (3 / 10))
     = [0, 3602879701896397 / 36028797018963968, 3602879701896397 / 18014398509481984]"
proof -
  have n: "nat (max 1 \<lfloor>to_double (to_double (3 / 10) / to_double (1 / 10))\<rfloor>) = 2"
    by (simp add: floor_quotient_3_10)
  show ?thesis
    unfolding sample_times_def n
    by (simp add: upt_rec to_double_zero to_double_1_tenth to_double_2_tenths to_double_3_10)
qed

lemma sample_times_unit:
  "length (sample_times (to_double (1 / 10)) 1) = 11"
  "last (sample_times (to_double (1 / 10)) 1) = 1"
proof -
  have n: "nat (max 1 \<lfloor>to_double (1 / to_double (1 / 10))\<rfloor>) = 10"
    by (simp add: to_double_quotient_1)
  show "length (sample_times (to_double (1 / 10)) 1) = 11"
    unfolding sample_times_length n by simp
  show "last (sample_times (to_double (1 / 10)) 1) = 1"
    unfolding sample_times_last n using to_double_10_tenths by simp
qed




section \<open>The Langevin model without noise\<close>

lemma uniform_draws_alternating: "uniform_draws alternating_draws"
proof -
  have "\<exists>j\<ge>k. alternating_draws j \<noteq> 0" for k
  proof (cases "even k")
    case True
    then have "alternating_draws (Suc k) \<noteq> 0" by (simp add: alternating_draws_def)
    then show ?thesis using le_SucI by blast
  next
    case False
    then have "alternating_draws k \<noteq> 0" by (simp add: alternating_draws_def)
    then show ?thesis by blast
  qed
  then show ?thesis
    unfolding uniform_draws_def by (simp add: alternating_draws_def)
qed

lemma update_dim_zero:
  assumes "uniform_draws random" "params ''sigma'' = 0" "dimn < 3"
  shows "\<exists>k'. update_dim params dt random (zero_state, k) dimn = Some (zero_state, k')"
proof -
  obtain nr k' where n: "normalRandom random k = Some (nr, k')"
    using normalRandom_total [OF assms(1)] by blast
  have "dimn = 0 \<or> dimn = 1 \<or> dimn = 2" using assms(3) by auto
  then have "update_dim params dt random (zero_state, k) dimn = Some (zero_state, k')"
    using n assms(2)
    by (auto simp: update_dim_def Let_def zero_state_def)
  then show ?thesis by blast
qed

lemma dims_loop_zero:
  assumes "uniform_draws random" "params ''sigma'' = 0" "\<forall>dimn \<in> set dims. dimn < 3"
  shows "\<exists>k'. dims_loop params dt random dims (zero_state, k) = Some (zero_state, k')"
  using assms(3)
proof (induction dims arbitrary: k)
  case Nil
  show ?case by simp
next
  case (Cons dimn rest)
  obtain k1 where "update_dim params dt random (zero_state, k) dimn = Some (zero_state, k1)"
    using update_dim_zero [where random = random and params = params and dimn = dimn
        and dt = dt and k = k] assms(1,2) Cons.prems
    by auto
  then show ?case using Cons.IH [of k1] Cons.prems by simp
qed

lemma step_sample_zero:
  assumes "uniform_draws random" "params ''sigma'' = 0"
  shows "\<exists>k'. step_sample params dt plotTime random i (zero_state, k)
                 = Some (rest_sample (min (to_double (real i * dt)) plotTime), zero_state, k')"
proof -
  obtain k' where d: "dims_loop params dt random [0..<3] (zero_state, k) = Some (zero_state, k')"
    using dims_loop_zero [where random = random and params = params and dims = "[0..<3]"] assms
    by auto
  have "step_sample params dt plotTime random i (zero_state, k)
          = Some (rest_sample (min (to_double (real i * dt)) plotTime), zero_state, k')"
    unfolding step_sample_def prod.case d option.case Let_def
    by (simp add: zero_state_def rest_sample_def hypot_def)
  then show ?thesis by blast
qed

lemma steps_loop_zero:
  assumes "uniform_draws random" "params ''sigma'' = 0"
  shows "\<exists>k'. steps_loop params dt plotTime random idx (data, zero_state, k)
                 = Some (data @ map (\<lambda>i. rest_sample (min (to_double (real i * dt)) plotTime)) idx,
                         zero_state, k')"
proof (induction idx arbitrary: data k)
  case Nil
  show ?case by simp
next
  case (Cons i rest)
  obtain k1 where
    "step_sample params dt plotTime random i (zero_state, k)
       = Some (rest_sample (min (to_double (real i * dt)) plotTime), zero_state, k1)"
    using step_sample_zero [where random = random and params = params] assms by blast
  then show ?case
    using Cons [of "data @ [rest_sample (min (to_double (real i * dt)) plotTime)]" k1] by simp
qed

lemma simulate_one_zero:
  assumes "uniform_draws random" "params ''sigma'' = 0" "0 < plotTime"
  shows "\<exists>k'. simulate_one params dt plotTime (nat (max 1 \<lfloor>to_double (plotTime / dt)\<rfloor>)) random k
                 = Some (rest_trajectory dt plotTime, k')"
proof -
  let ?n = "nat (max 1 \<lfloor>to_double (plotTime / dt)\<rfloor>)"
  obtain k' where
    s: "steps_loop params dt plotTime random [1..<Suc ?n] ([rest_sample 0], zero_state, k)
          = Some ([rest_sample 0] @ map (\<lambda>i. rest_sample (min (to_double (real i * dt)) plotTime))
                                       [1..<Suc ?n], zero_state, k')"
    using steps_loop_zero [where random = random and params = params] assms(1,2) by blast
  have "[0..<Suc ?n] = 0 # [1..<Suc ?n]"
    by (simp add: upt_conv_Cons)
  then have "rest_trajectory dt plotTime
               = rest_sample 0 # map (\<lambda>i. rest_sample (min (to_double (real i * dt)) plotTime)) [1..<Suc ?n]"
    using assms(3) by (simp add: rest_trajectory_def sample_times_def comp_def to_double_zero)
  moreover have "simulate_one params dt plotTime ?n random k
          = Some (rest_sample 0 # map (\<lambda>i. rest_sample (min (to_double (real i * dt)) plotTime))
                                     [1..<Suc ?n], k')"
    using s by (simp add: simulate_one_def Let_def zero_state_def rest_sample_def)
  ultimately show ?thesis by simp
qed

lemma samples_loop_zero:
  assumes "uniform_draws random" "params ''sigma'' = 0" "0 < plotTime"
  shows "\<exists>k'. samples_loop params dt plotTime (nat (max 1 \<lfloor>to_double (plotTime / dt)\<rfloor>)) random ns (trs, k)
                 = Some (trs @ replicate (length ns) (rest_trajectory dt plotTime), k')"
proof (induction ns arbitrary: trs k)
  case Nil
  show ?case by simp
next
  case (Cons n rest)
  obtain k1 where
    "simulate_one params dt plotTime (nat (max 1 \<lfloor>to_double (plotTime / dt)\<rfloor>)) random k
       = Some (rest_trajectory dt plotTime, k1)"
    using simulate_one_zero [where random = random and params = params] assms by blast
  then show ?case
    using Cons [of "trs @ [rest_trajectory dt plotTime]" k1]
    by (simp add: replicate_app_Cons_same)
qed

lemma langevin_simulate_zero:
  assumes "uniform_draws random" "params ''sigma'' = 0" "0 < dt"
  shows "\<exists>k'. langevin_simulate random k params dt nSamples
                 = Some (if langevin_getPlotTime params \<le> 0 then []
                         else replicate nSamples
                                (rest_trajectory dt (langevin_getPlotTime params)), k')"
proof (cases "langevin_getPlotTime params \<le> 0")
  case True
  then show ?thesis by (simp add: langevin_simulate_def)
next
  case False
  then have H: "0 < langevin_getPlotTime params" by simp
  obtain k' where
    "samples_loop params dt (langevin_getPlotTime params)
        (nat (max 1 \<lfloor>to_double (langevin_getPlotTime params / dt)\<rfloor>)) random [0..<nSamples] ([], k)
       = Some ([] @ replicate (length [0..<nSamples])
                       (rest_trajectory dt (langevin_getPlotTime params)), k')"
    using samples_loop_zero [where random = random and params = params] assms(1,2) H by blast
  then show ?thesis
    using False assms(3) by (simp add: langevin_simulate_def Let_def)
qed

text \<open>
  Claim C9. For every parameter set with \<open>sigma = 0\<close> and every \<open>dt > 0\<close>, \<open>simulate\<close> of
  the Langevin model does not depend on the random draws: two runs with the same
  parameters, \<open>dt\<close> and sample count, on any two sequences of uniform draws and from any
  two positions in them, both return, and return the same trajectories; all trajectories
  of a call are equal (each is the trajectory at rest).
\<close>

theorem langevin_sigma0_deterministic:
  assumes "params ''sigma'' = 0" and "0 < dt"
    and "uniform_draws random1" and "uniform_draws random2"
  shows "\<exists>trs k1' k2'.
           langevin_simulate random1 k1 params dt nSamples = Some (trs, k1')
           \<and> langevin_simulate random2 k2 params dt nSamples = Some (trs, k2')
           \<and> (\<forall>tr \<in> set trs. tr = rest_trajectory dt (langevin_getPlotTime params))"
proof -
  obtain k1' where a: "langevin_simulate random1 k1 params dt nSamples
                 = Some (if langevin_getPlotTime params \<le> 0 then []
                         else replicate nSamples
                                (rest_trajectory dt (langevin_getPlotTime params)), k1')"
    using langevin_simulate_zero [where random = random1 and params = params] assms(1,2,3)
    by blast
  obtain k2' where b: "langevin_simulate random2 k2 params dt nSamples
                 = Some (if langevin_getPlotTime params \<le> 0 then []
                         else replicate nSamples
                                (rest_trajectory dt (langevin_getPlotTime params)), k2')"
    using langevin_simulate_zero [where random = random2 and params = params] assms(1,2,4)
    by blast
  show ?thesis
    using a b by (cases "langevin_getPlotTime params \<le> 0") auto
qed

theorem langevin_sigma0_deterministic_witness:
  "params_sigma0 ''sigma'' = 0 \<and> (0::real) < 3
   \<and> uniform_draws constant_draws \<and> uniform_draws alternating_draws
   \<and> (\<exists>trs k1' k2'.
         langevin_simulate constant_draws 0 params_sigma0 3 2 = Some (trs, k1')
         \<and> langevin_simulate alternating_draws 0 params_sigma0 3 2 = Some (trs, k2')
         \<and> (\<forall>tr \<in> set trs. map t tr = [0, 3, 6, 9, 12, 15, 18] \<and> map speed tr = [0, 0, 0, 0, 0, 0, 0]))"
proof -
  have s: "params_sigma0 ''sigma'' = 0" by (simp add: params_sigma0_def)
  have dt: "(0::real) < 3" by simp
  have H: "langevin_getPlotTime params_sigma0 = 20"
    by (simp add: langevin_getPlotTime_def params_sigma0_def langevin_defaultParams_def)
  note ts = sample_times_3_20
  have r: "map t (rest_trajectory 3 20) = [0, 3, 6, 9, 12, 15, 18]"
    "map speed (rest_trajectory 3 20) = [0, 0, 0, 0, 0, 0, 0]"
    by (simp_all add: rest_trajectory_def ts rest_sample_def)
  show ?thesis
    using s dt uniform_draws_constant uniform_draws_alternating r
      langevin_sigma0_deterministic [where params = params_sigma0 and dt = 3
        and ?random1.0 = constant_draws and ?random2.0 = alternating_draws
        and ?k1.0 = 0 and ?k2.0 = 0 and nSamples = 2]
    unfolding H by fastforce
qed

section \<open>Properties of the registry and of \<open>evaluate\<close>\<close>

text \<open>
  Claim C7. For every time and every parameter set, \<open>evaluate\<close> of the Langevin model
  raises an error instead of returning data.
\<close>

theorem langevin_evaluate_raises:
  "evaluate langevin time params
     = Inl (Error ''Langevin dynamics requires simulation, not point evaluation'')"
  by (simp add: langevin_def langevin_evaluate_def)

lemma lissajous_evaluate_returns:
  "evaluate lissajous time params = Inr (lissajous_evaluate time params)"
  by (simp add: lissajous_def)

text \<open>
  Claim C8 says that \<open>getTrajectory(id)\<close> is \<open>null\<close> for every identifier other than
  \<open>lissajous\<close> and \<open>langevin\<close>. The code returns the inherited property for the name of a
  property of \<open>Object.prototype\<close>, here \<open>constructor\<close>.
\<close>

theorem getTrajectory_constructor:
  "getTrajectory ''constructor'' = Inherited ''constructor''
   \<and> getTrajectory ''constructor'' \<noteq> Null
   \<and> ''constructor'' \<notin> {''lissajous'', ''langevin''}"
  by (simp add: getTrajectory_def trajectories_get_def trajectories_def Object_prototype_def)

lemma getTrajectory_known:
  "getTrajectory ''lissajous'' = Model lissajous" "getTrajectory ''langevin'' = Model langevin"
  by (simp_all add: getTrajectory_def trajectories_get_def trajectories_def)

lemma getTrajectory_unknown:
  assumes "ident \<notin> {''lissajous'', ''langevin''}" "ident \<notin> set Object_prototype"
  shows "getTrajectory ident = Null"
  using assms by (simp add: getTrajectory_def trajectories_get_def trajectories_def)

lemma getTrajectory_model_id:
  "getTrajectory ident = Model m \<Longrightarrow> model_id m = ident"
  by (auto simp: getTrajectory_def trajectories_get_def trajectories_def lissajous_def
      langevin_def split: if_splits)

end
